theory Spec2Isabelle
  imports Complex_Main "HOL-Library.Sublist"
begin

section \<open>JavaScript values used by vectorSearchService.ts\<close>

text \<open>
  A string is a list of UTF-16 code units; the model covers code units below 256, so a
  \<^typ>\<open>char\<close> is read as the code unit with the same number (Latin-1 text).
  A thrown value is either an \<open>Error\<close> instance with its message, or any other value;
  of another value the model keeps what reading its property \<open>message\<close> gives, when that
  is a string (\<open>None\<close> for \<open>null\<close>, \<open>undefined\<close>, a value without that property or with
  one that is not a string).
\<close>

datatype js_thrown = ErrorObj string | NonError "string option"

text \<open>\<open>error instanceof Error ? error.message : 'Unknown error'\<close>\<close>

fun error_message :: "js_thrown \<Rightarrow> string" where
  "error_message (ErrorObj m) = m"
| "error_message (NonError p) = ''Unknown error''"

text \<open>\<open>error?.message || 'Unknown error'\<close>: the property is read off any thrown value, and
  an empty or absent message is falsy.\<close>

fun message_or_unknown :: "js_thrown \<Rightarrow> string" where
  "message_or_unknown (ErrorObj m) = (if m = [] then ''Unknown error'' else m)"
| "message_or_unknown (NonError (Some m)) = (if m = [] then ''Unknown error'' else m)"
| "message_or_unknown (NonError None) = ''Unknown error''"

subsection \<open>Strings\<close>

text \<open>\<open>String.prototype.toLowerCase\<close> on code units below 256: A-Z and the Latin-1
  capitals (0xC0-0xDE without the multiplication sign 0xD7) move up by 32.\<close>

definition toLowerCase_char :: "char \<Rightarrow> char" where
  "toLowerCase_char c =
     (let n = (of_char c :: nat) in
      if (65 \<le> n \<and> n \<le> 90) \<or> (192 \<le> n \<and> n \<le> 214) \<or> (216 \<le> n \<and> n \<le> 222)
      then char_of (n + 32) else c)"

definition toLowerCase :: "string \<Rightarrow> string" where
  "toLowerCase s = map toLowerCase_char s"

text \<open>\<open>s.includes(p)\<close>: \<open>p\<close> occurs in \<open>s\<close> as a contiguous run.\<close>

definition js_includes :: "string \<Rightarrow> string \<Rightarrow> bool" where
  "js_includes s p = sublist p s"

text \<open>The class \<open>\s\<close> of a regular expression (and what \<open>trim\<close> removes), below 256:
  tab, line feed, vertical tab, form feed, carriage return, space, no-break space.\<close>

definition is_space :: "char \<Rightarrow> bool" where
  "is_space c = (let n = (of_char c :: nat) in (9 \<le> n \<and> n \<le> 13) \<or> n = 32 \<or> n = 160)"

text \<open>The class \<open>\d\<close>.\<close>

definition is_digit :: "char \<Rightarrow> bool" where
  "is_digit c = (let n = (of_char c :: nat) in 48 \<le> n \<and> n \<le> 57)"

text \<open>Decimal rendering of an integer in a template literal.\<close>

definition digit_char :: "nat \<Rightarrow> char" where
  "digit_char d = char_of (48 + d)"

fun show_nat :: "nat \<Rightarrow> string" where
  "show_nat n = (if n < 10 then [digit_char n] else show_nat (n div 10) @ [digit_char (n mod 10)])"

definition show_int :: "int \<Rightarrow> string" where
  "show_int i = (if i < 0 then CHR ''-'' # show_nat (nat (- i)) else show_nat (nat i))"

text \<open>\<open>parseInt\<close> on a run of decimal digits.\<close>

definition parse_digits :: "string \<Rightarrow> int" where
  "parse_digits ds = foldl (\<lambda>a c. 10 * a + (int (of_char c) - 48)) 0 ds"

section \<open>Model widths\<close>

definition EMBEDDING_DIMENSIONS_SMALL :: nat where "EMBEDDING_DIMENSIONS_SMALL = 1536"
definition EMBEDDING_DIMENSIONS_LARGE :: nat where "EMBEDDING_DIMENSIONS_LARGE = 3072"
definition BGE_DIMENSIONS :: nat where "BGE_DIMENSIONS = 1024"
definition NOMIC_DIMENSIONS :: nat where "NOMIC_DIMENSIONS = 768"
definition FALLBACK_DIMENSIONS :: nat where "FALLBACK_DIMENSIONS = 100"

definition VECTOR_MAX_DIMENSIONS :: int where "VECTOR_MAX_DIMENSIONS = 2000"
definition HALFVEC_MAX_DIMENSIONS :: int where "HALFVEC_MAX_DIMENSIONS = 4000"

definition getDimensionsForModel :: "string \<Rightarrow> nat" where
  "getDimensionsForModel model =
     (let lowerCaseModelName = toLowerCase model in
      if js_includes lowerCaseModelName ''bge-m3'' then BGE_DIMENSIONS
      else if js_includes lowerCaseModelName ''nomic-embed-text'' then NOMIC_DIMENSIONS
      else if js_includes lowerCaseModelName ''text-embedding-3-large'' then EMBEDDING_DIMENSIONS_LARGE
      else if js_includes lowerCaseModelName ''text-embedding-3-small'' then EMBEDDING_DIMENSIONS_SMALL
      else if lowerCaseModelName = ''fallback'' \<or> lowerCaseModelName = ''simple-hash''
        then FALLBACK_DIMENSIONS
      else EMBEDDING_DIMENSIONS_SMALL)"

text \<open>
  The lookup as the specification words it: a priority table searched for the first pattern
  that occurs in the name ignoring letter case, then the two whole names, then the default.
\<close>

definition same_ignoring_case :: "string \<Rightarrow> string \<Rightarrow> bool" where
  "same_ignoring_case a b = (toLowerCase a = toLowerCase b)"

definition contains_ignoring_case :: "string \<Rightarrow> string \<Rightarrow> bool" where
  "contains_ignoring_case name pat =
     (\<exists>before mid after. name = before @ mid @ after \<and> same_ignoring_case mid pat)"

definition width_table :: "(string \<times> nat) list" where
  "width_table =
     [(''bge-m3'', 1024), (''nomic-embed-text'', 768),
      (''text-embedding-3-large'', 3072), (''text-embedding-3-small'', 1536)]"

definition spec_width :: "string \<Rightarrow> nat" where
  "spec_width name =
     (case find (\<lambda>(pat, w). contains_ignoring_case name pat) width_table of
        Some (pat, w) \<Rightarrow> w
      | None \<Rightarrow>
          if same_ignoring_case name ''fallback'' \<or> same_ignoring_case name ''simple-hash''
          then 100 else 1536)"

section \<open>The database behind \<open>getAppDataSource().query\<close>\<close>

text \<open>
  The statements the service sends. A data source says which statements it rejects and with
  what; the rows of the three introspection queries are part of the environment. A statement
  that is accepted has its SQL effect on the stored records (only their \<open>dimensions\<close> column
  matters here), the declared width of the column and the index.
\<close>

datatype sql =
    DropIndex string
  | CreateHnsw string string string
  | CreateIvfflat string string string
  | CreateHalfvec string string string int
  | SelectTypeInfo
  | SelectAttTypMod
  | SelectRecordDims
  | DeleteMismatched int
  | AlterColumn int

type_synonym data_source = "sql \<Rightarrow> js_thrown option"

datatype event =
    Query sql
  | InitDb
  | SaveEmbedding nat string string "real list" string
  | DeleteByServerName string

record stored_record =
  entityKey :: string
  dimensions :: int

record db_state =
  db_records :: "stored_record list"
  db_declared :: "int option"
  db_index :: "string option"
  db_log :: "event list"

fun apply_sql :: "sql \<Rightarrow> db_state \<Rightarrow> db_state" where
  "apply_sql (DropIndex n) st = st\<lparr>db_index := None\<rparr>"
| "apply_sql (CreateHnsw n t c) st = st\<lparr>db_index := Some ''hnsw''\<rparr>"
| "apply_sql (CreateIvfflat n t c) st = st\<lparr>db_index := Some ''ivfflat''\<rparr>"
| "apply_sql (CreateHalfvec n t c d) st = st\<lparr>db_index := Some ''hnsw-halfvec''\<rparr>"
| "apply_sql (DeleteMismatched d) st =
     st\<lparr>db_records := filter (\<lambda>r. \<not> (dimensions r \<noteq> d)) (db_records st)\<rparr>"
| "apply_sql (AlterColumn d) st = st\<lparr>db_declared := Some d\<rparr>"
| "apply_sql SelectTypeInfo st = st"
| "apply_sql SelectAttTypMod st = st"
| "apply_sql SelectRecordDims st = st"

definition query :: "data_source \<Rightarrow> sql \<Rightarrow> db_state \<Rightarrow> (js_thrown + unit) \<times> db_state" where
  "query ds q st =
     (let st1 = st\<lparr>db_log := db_log st @ [Query q]\<rparr> in
      case ds q of
        Some e \<Rightarrow> (Inl e, st1)
      | None \<Rightarrow> (Inr (), apply_sql q st1))"

section \<open>createVectorIndex\<close>

record index_result =
  success :: bool
  indexType :: "string option"
  message :: string

definition createVectorIndex ::
  "data_source \<Rightarrow> int \<Rightarrow> string \<Rightarrow> string \<Rightarrow> db_state \<Rightarrow> index_result \<times> db_state" where
  "createVectorIndex dataSource dims tableName columnName st =
     (let indexName = ''idx_'' @ tableName @ ''_'' @ columnName;
          st1 = snd (query dataSource (DropIndex indexName) st)
      in
      if dims \<le> VECTOR_MAX_DIMENSIONS then
        (case query dataSource (CreateHnsw indexName tableName columnName) st1 of
           (Inr u, st2) \<Rightarrow>
             (\<lparr>success = True, indexType = Some ''hnsw'',
               message = ''HNSW index created successfully for '' @ show_int dims @ '' dimensions''\<rparr>,
              st2)
         | (Inl error, st2) \<Rightarrow>
             (case query dataSource (CreateIvfflat indexName tableName columnName) st2 of
                (Inr u, st3) \<Rightarrow>
                  (\<lparr>success = True, indexType = Some ''ivfflat'',
                    message = ''IVFFlat index created successfully for '' @ show_int dims
                      @ '' dimensions''\<rparr>,
                   st3)
              | (Inl ivfError, st3) \<Rightarrow>
                  (\<lparr>success = False, indexType = None,
                    message = ''No index created: '' @ error_message error\<rparr>,
                   st3)))
      else if dims \<le> HALFVEC_MAX_DIMENSIONS then
        (case query dataSource (CreateHalfvec indexName tableName columnName dims) st1 of
           (Inr u, st2) \<Rightarrow>
             (\<lparr>success = True, indexType = Some ''hnsw-halfvec'',
               message = ''HNSW index (halfvec) created successfully for '' @ show_int dims
                 @ '' dimensions''\<rparr>,
              st2)
         | (Inl error, st2) \<Rightarrow>
             (\<lparr>success = False, indexType = None,
               message = ''No vector index created for '' @ show_int dims @ '' dimensions. ''
                 @ error_message error\<rparr>,
              st2))
      else
        (\<lparr>success = False, indexType = None,
          message = ''Dimensions ('' @ show_int dims @ '') exceed maximum indexable limit (''
            @ show_int HALFVEC_MAX_DIMENSIONS @ '')''\<rparr>,
         st1))"

section \<open>Embedding generation\<close>

record config =
  apiKey :: string
  baseURL :: string
  embeddingModel :: string

text \<open>
  What \<open>callEmbeddingAPI\<close> resolves to: \<open>null\<close> (or another falsy value), a truthy value
  that is not an array, or an array of numbers. Numbers are modelled as reals. The transport
  itself (the HTTP request or the vendor client) is a parameter of the generator: a function
  of the text sent and the configuration, which may also throw.
\<close>

datatype api_value = ApiNull | ApiNotArray | ApiArray "real list"

type_synonym transport = "string \<Rightarrow> config \<Rightarrow> js_thrown + api_value"

fun validateEmbeddingArray :: "api_value \<Rightarrow> bool" where
  "validateEmbeddingArray (ApiArray e) = (e \<noteq> [])"
| "validateEmbeddingArray ApiNotArray = False"
| "validateEmbeddingArray ApiNull = False"

definition validateEmbeddingNotZero :: "real list \<Rightarrow> bool" where
  "validateEmbeddingNotZero embedding = (\<not> list_all (\<lambda>val. val = 0) embedding)"

definition validateEmbeddingRange :: "real list \<Rightarrow> real \<Rightarrow> real \<Rightarrow> bool" where
  "validateEmbeddingRange embedding minRange maxRange =
     list_all (\<lambda>val. val \<ge> minRange \<and> val \<le> maxRange) embedding"

definition validateEmbeddingDimensions :: "real list \<Rightarrow> string \<Rightarrow> bool" where
  "validateEmbeddingDimensions embedding modelName =
     (length embedding = getDimensionsForModel modelName)"

subsection \<open>generateFallbackEmbedding\<close>

text \<open>\<open>text.split(/\s+/)\<close>: the pieces between maximal runs of white space; a run at the
  start or at the end leaves an empty piece there, and the empty text gives one empty piece.\<close>

function split_ws :: "string \<Rightarrow> string list" where
  "split_ws s =
     (let w = takeWhile (\<lambda>c. \<not> is_space c) s;
          r = dropWhile (\<lambda>c. \<not> is_space c) s
      in if r = [] then [w] else w # split_ws (dropWhile is_space r))"
  by pat_completeness auto
termination
proof (relation "measure length")
  show "wf (measure length)" by simp
next
  fix s :: string and w r
  assume r: "r = dropWhile (\<lambda>c. \<not> is_space c) s" and ne: "r \<noteq> []"
  have "length (dropWhile is_space r) < length r"
  proof (cases r)
    case Nil
    with ne show ?thesis by simp
  next
    case (Cons c cs)
    have "\<not> \<not> is_space (hd (dropWhile (\<lambda>c. \<not> is_space c) s))"
      using ne unfolding r by (rule hd_dropWhile)
    then have "is_space c" using Cons unfolding r[symmetric] by simp
    then have "dropWhile is_space r = dropWhile is_space cs" using Cons by simp
    moreover have "length (dropWhile is_space cs) \<le> length cs" by (rule length_dropWhile_le)
    ultimately show ?thesis using Cons by simp
  qed
  moreover have "length r \<le> length s" unfolding r by (rule length_dropWhile_le)
  ultimately show "(dropWhile is_space r, s) \<in> measure length" by simp
qed

definition vocabulary :: "string list" where
  "vocabulary =
     [''search'', ''find'', ''get'', ''fetch'', ''retrieve'', ''query'', ''map'',
      ''location'', ''weather'', ''file'', ''directory'', ''email'', ''message'', ''send'',
      ''create'', ''update'', ''delete'', ''browser'', ''web'', ''page'', ''click'',
      ''navigate'', ''screenshot'', ''automation'', ''database'', ''table'', ''record'',
      ''insert'', ''select'', ''schema'', ''data'', ''image'', ''photo'', ''video'',
      ''media'', ''upload'', ''download'', ''convert'', ''text'', ''document'', ''pdf'',
      ''excel'', ''word'', ''format'', ''parse'', ''api'', ''rest'', ''http'', ''request'',
      ''response'', ''json'', ''xml'', ''time'', ''date'', ''calendar'', ''schedule'',
      ''reminder'', ''clock'', ''math'', ''calculate'', ''number'', ''sum'', ''average'',
      ''statistics'', ''user'', ''account'', ''login'', ''auth'', ''permission'', ''role'']"

text \<open>\<open>vocabulary.indexOf(word)\<close>, with \<open>None\<close> for -1.\<close>

fun indexOf :: "string list \<Rightarrow> string \<Rightarrow> nat option" where
  "indexOf [] w = None"
| "indexOf (x # xs) w = (if x = w then Some 0 else map_option Suc (indexOf xs w))"

text \<open>\<open>word.split('').reduce((a, b) => a + b.charCodeAt(0), 0)\<close>\<close>

definition char_hash :: "string \<Rightarrow> nat" where
  "char_hash word = foldl (\<lambda>a b. a + of_char b) 0 word"

text \<open>One round of the \<open>forEach\<close> over the words.\<close>

definition fallback_word :: "real list \<Rightarrow> string \<Rightarrow> real list" where
  "fallback_word vector word =
     (let v1 = (case indexOf vocabulary word of
                  Some i \<Rightarrow> if i < length vector then vector[i := vector ! i + 1] else vector
                | None \<Rightarrow> vector);
          hash = char_hash word
      in v1[hash mod length v1 := v1 ! (hash mod length v1) + 1 / 10])"

definition generateFallbackEmbedding :: "string \<Rightarrow> real list" where
  "generateFallbackEmbedding text =
     (let words = split_ws (toLowerCase text);
          vector = foldl fallback_word (replicate FALLBACK_DIMENSIONS 0) words;
          magnitude = sqrt (foldl (\<lambda>sum val. sum + val * val) 0 vector)
      in if magnitude > 0 then map (\<lambda>val. val / magnitude) vector else vector)"

subsection \<open>generateEmbedding\<close>

text \<open>\<open>text.replace(/\n+/g, ' ')\<close>: each maximal run of line feeds becomes one space.\<close>

function replace_newlines :: "string \<Rightarrow> string" where
  "replace_newlines [] = []"
| "replace_newlines (c # cs) =
     (if c = CHR 0x0A then CHR '' '' # replace_newlines (dropWhile (\<lambda>d. d = CHR 0x0A) cs)
      else c # replace_newlines cs)"
  by pat_completeness auto
termination
  by (relation "measure length") (auto simp: less_Suc_eq_le length_dropWhile_le)

text \<open>
  The function first awaits \<open>getOpenAIConfig()\<close>, outside its \<open>try\<close>: what that call did
  (a throw, or the configuration) is the first parameter, and a throw there leaves the
  function. The transport is the second parameter; whatever is thrown inside the \<open>try\<close> is
  caught and gives the fallback embedding. The result is a sum: \<open>Inl\<close> is a throw of the
  function (a rejected promise).
\<close>

definition truncatedText :: "string \<Rightarrow> string" where
  "truncatedText text =
     (let cleanedText = replace_newlines text
      in if length cleanedText > 8000 then take 8000 cleanedText else cleanedText)"

definition generateEmbedding ::
  "js_thrown + config \<Rightarrow> transport \<Rightarrow> string \<Rightarrow> js_thrown + real list" where
  "generateEmbedding getOpenAIConfig callEmbeddingAPI text =
     (case getOpenAIConfig of
        Inl loadError \<Rightarrow> Inl loadError
      | Inr cfg \<Rightarrow>
          (case callEmbeddingAPI (truncatedText text) cfg of
             Inl error \<Rightarrow> Inr (generateFallbackEmbedding text)
           | Inr ApiNull \<Rightarrow> Inr (generateFallbackEmbedding text)
           | Inr ApiNotArray \<Rightarrow> Inr (generateFallbackEmbedding text)
           | Inr (ApiArray embedding) \<Rightarrow>
               if \<not> validateEmbeddingArray (ApiArray embedding)
                 then Inr (generateFallbackEmbedding text)
               else if \<not> validateEmbeddingNotZero embedding
                 then Inr (generateFallbackEmbedding text)
               else if \<not> validateEmbeddingRange embedding (- 11 / 10) (11 / 10)
                 then Inr (generateFallbackEmbedding text)
               else if \<not> validateEmbeddingDimensions embedding (embeddingModel cfg)
                 then Inr (generateFallbackEmbedding text)
               else Inr embedding))"

section \<open>Dimension reconciliation\<close>

text \<open>
  The environment of a call: the answers of the collaborators that are not part of the
  service (configuration, connection state, the rows of the introspection queries, which
  statements the database rejects, what each call of the embedding generator and of the
  repository's \<open>saveEmbedding\<close> does). \<open>embed k text\<close> is the outcome of the \<open>k\<close>-th call
  of \<open>generateEmbedding\<close> of a batch (0 is the probe), as the caller sees it: a throw, a
  value that is not an array, or an array.
\<close>

record env =
  smartRoutingEnabled :: bool
  isDatabaseConnected :: bool
  isInitialized :: bool
  initializeDatabase :: "js_thrown option"
  openAIConfig :: config
  embed :: "nat \<Rightarrow> string \<Rightarrow> js_thrown + api_value"
  dataSource :: data_source
  typeInfoRows :: "string option list"
  attTypModRows :: "int list"
  recordDimsRows :: "int list"
  saveEmbedding :: "nat \<Rightarrow> string \<Rightarrow> js_thrown option"

definition initDb :: "env \<Rightarrow> db_state \<Rightarrow> (js_thrown + unit) \<times> db_state" where
  "initDb e st =
     (let st1 = st\<lparr>db_log := db_log st @ [InitDb]\<rparr> in
      case initializeDatabase e of Some err \<Rightarrow> (Inl err, st1) | None \<Rightarrow> (Inr (), st1))"

text \<open>The search \<open>formatted_type.match(/vector\((\d+)\)/)\<close> followed by \<open>parseInt\<close> of the
  group: the leftmost place where \<open>vector(\<close>, a non-empty run of digits and \<open>)\<close> follow.\<close>

definition match_vector_here :: "string \<Rightarrow> int option" where
  "match_vector_here s =
     (if prefix ''vector('' s then
        (let r = drop 7 s; ds = takeWhile is_digit r; rest = dropWhile is_digit r
         in if ds \<noteq> [] \<and> prefix '')'' rest then Some (parse_digits ds) else None)
      else None)"

fun match_vector :: "string \<Rightarrow> int option" where
  "match_vector [] = None"
| "match_vector (c # cs) =
     (case match_vector_here (c # cs) of Some n \<Rightarrow> Some n | None \<Rightarrow> match_vector cs)"

text \<open>\<open>currentDimensions\<close> after the schema has been read; \<open>vectorTypeInfo\<close> is \<open>None\<close> when
  the first query threw.\<close>

definition schemaDimensions :: "string option list option \<Rightarrow> int list \<Rightarrow> int" where
  "schemaDimensions vectorTypeInfo result =
     (if result \<noteq> [] \<and> hd result \<noteq> 0 then
        (let fromType =
               (case vectorTypeInfo of
                  Some (Some formatted_type # rest) \<Rightarrow>
                    (case match_vector formatted_type of Some n \<Rightarrow> n | None \<Rightarrow> 0)
                | _ \<Rightarrow> 0)
         in if fromType = 0
            then (let rawValue = hd result in if rawValue = - 1 then 0 else rawValue)
            else fromType)
      else 0)"

text \<open>The effect of the record check; \<open>recordCheck\<close> is \<open>None\<close> when that query threw.\<close>

definition recordFallback :: "int \<Rightarrow> int list option \<Rightarrow> int" where
  "recordFallback currentDimensions recordCheck =
     (case recordCheck of
        Some (recordDimensions # rest) \<Rightarrow>
          if currentDimensions = 0 \<and> recordDimensions > 0 then recordDimensions
          else currentDimensions
      | _ \<Rightarrow> currentDimensions)"

text \<open>The width detected by one reconciliation pass in an environment.\<close>

definition detectedDimensions :: "env \<Rightarrow> int" where
  "detectedDimensions e =
     recordFallback
       (schemaDimensions
          (case dataSource e SelectTypeInfo of None \<Rightarrow> Some (typeInfoRows e) | Some err \<Rightarrow> None)
          (attTypModRows e))
       (case dataSource e SelectRecordDims of None \<Rightarrow> Some (recordDimsRows e) | Some err \<Rightarrow> None)"

definition clearMismatchedVectorData ::
  "env \<Rightarrow> int \<Rightarrow> db_state \<Rightarrow> (js_thrown + unit) \<times> db_state" where
  "clearMismatchedVectorData e expectedDimensions st =
     (case query (dataSource e) (DeleteMismatched expectedDimensions) st of
        (Inl error, st1) \<Rightarrow> (Inl error, st1)
      | (Inr u, st1) \<Rightarrow> (Inr (), st1))"

text \<open>The queries that read the schema and the records (the second one is not guarded:
  its error leaves the function).\<close>

definition introspect :: "env \<Rightarrow> db_state \<Rightarrow> (js_thrown + unit) \<times> db_state" where
  "introspect e st0 =
     (let st1 = snd (query (dataSource e) SelectTypeInfo st0) in
      case query (dataSource e) SelectAttTypMod st1 of
        (Inl err, st2) \<Rightarrow> (Inl err, st2)
      | (Inr u, st2) \<Rightarrow> (Inr (), snd (query (dataSource e) SelectRecordDims st2)))"

text \<open>The branch \<open>needsMigration\<close>: step 1 clears, step 2 alters the column, step 3 rebuilds
  the index (its result is only looked at for a warning).\<close>

definition migrate :: "env \<Rightarrow> int \<Rightarrow> db_state \<Rightarrow> (js_thrown + unit) \<times> db_state" where
  "migrate e dimensionsNeeded st3 =
     (case clearMismatchedVectorData e dimensionsNeeded st3 of
        (Inl err, st4) \<Rightarrow> (Inl err, st4)
      | (Inr u, st4) \<Rightarrow>
          (case query (dataSource e) (AlterColumn dimensionsNeeded) st4 of
             (Inl err, st5) \<Rightarrow> (Inl err, st5)
           | (Inr u, st5) \<Rightarrow>
               (Inr (), snd (createVectorIndex (dataSource e) dimensionsNeeded
                               ''vector_embeddings'' ''embedding'' st5))))"

text \<open>The branch \<open>needsInitialization\<close>.\<close>

definition initialize_column :: "env \<Rightarrow> int \<Rightarrow> db_state \<Rightarrow> (js_thrown + unit) \<times> db_state" where
  "initialize_column e dimensionsNeeded st3 =
     (case query (dataSource e) (AlterColumn dimensionsNeeded) st3 of
        (Inl err, st5) \<Rightarrow> (Inl err, st5)
      | (Inr u, st5) \<Rightarrow>
          (Inr (), snd (createVectorIndex (dataSource e) dimensionsNeeded
                          ''vector_embeddings'' ''embedding'' st5)))"

text \<open>The body of the \<open>try\<close> of \<open>checkDatabaseVectorDimensions\<close>.\<close>

definition check_body :: "env \<Rightarrow> int \<Rightarrow> db_state \<Rightarrow> (js_thrown + unit) \<times> db_state" where
  "check_body e dimensionsNeeded st =
     (if dimensionsNeeded \<le> 0 then
        (Inl (ErrorObj (''Invalid dimension value: '' @ show_int dimensionsNeeded
                 @ ''. Must be a positive integer.'')), st)
      else
        case (if isInitialized e then (Inr (), st) else initDb e st) of
          (Inl err, st0) \<Rightarrow> (Inl err, st0)
        | (Inr u, st0) \<Rightarrow>
            (case introspect e st0 of
               (Inl err, st2) \<Rightarrow> (Inl err, st2)
             | (Inr u, st3) \<Rightarrow>
                 (let currentDimensions = detectedDimensions e;
                      needsMigration = (currentDimensions > 0 \<and> currentDimensions \<noteq> dimensionsNeeded);
                      needsInitialization = (currentDimensions = 0)
                  in
                  if needsMigration then migrate e dimensionsNeeded st3
                  else if needsInitialization then initialize_column e dimensionsNeeded st3
                  else (Inr (), st3))))"

definition checkDatabaseVectorDimensions ::
  "env \<Rightarrow> int \<Rightarrow> db_state \<Rightarrow> (js_thrown + unit) \<times> db_state" where
  "checkDatabaseVectorDimensions e dimensionsNeeded st =
     (case check_body e dimensionsNeeded st of
        (Inl error, st1) \<Rightarrow>
          (Inl (ErrorObj (''Vector dimension check failed: '' @ message_or_unknown error)), st1)
      | (Inr u, st1) \<Rightarrow> (Inr (), st1))"

section \<open>saveToolsAsVectorEmbeddings\<close>

record schema =
  schema_keys :: "string list"
  schema_properties :: "string list option"

record tool =
  tool_name :: string
  tool_description :: string
  tool_inputSchema :: "schema option"

fun join_space :: "string list \<Rightarrow> string" where
  "join_space [] = []"
| "join_space [x] = x"
| "join_space (x # y # zs) = x @ '' '' @ join_space (y # zs)"

text \<open>The searchable text of a tool: name, description, the top-level keys of the input
  schema other than \<open>type\<close> and \<open>properties\<close>, the keys of its \<open>properties\<close>; empty parts
  dropped, joined by a space.\<close>

definition searchableText :: "tool \<Rightarrow> string" where
  "searchableText t =
     join_space (filter (\<lambda>s. s \<noteq> [])
       ([tool_name t, tool_description t]
        @ (case tool_inputSchema t of
             Some sc \<Rightarrow> filter (\<lambda>key. key \<noteq> ''type'' \<and> key \<noteq> ''properties'') (schema_keys sc)
           | None \<Rightarrow> [])
        @ (case tool_inputSchema t of
             Some sc \<Rightarrow> (case schema_properties sc of Some ks \<Rightarrow> ks | None \<Rightarrow> [])
           | None \<Rightarrow> [])))"


text \<open>
  The loop over the tools. \<open>k\<close> is the number of the call of the generator, which is the
  position of the tool in the batch plus one. The counters are the two that the function
  logs at the end. The repository is outside the service: a call of \<open>saveEmbedding\<close> is
  recorded as an event that carries the position of the tool.
\<close>

fun save_loop ::
  "env \<Rightarrow> string \<Rightarrow> nat \<Rightarrow> nat \<Rightarrow> tool list \<Rightarrow> nat \<times> nat \<times> db_state \<Rightarrow> nat \<times> nat \<times> db_state" where
  "save_loop e serverName actualDimensions k [] acc = acc"
| "save_loop e serverName actualDimensions k (t # ts) (successCount, failureCount, st) =
     (let text = searchableText t in
      case embed e k text of
        Inl toolError \<Rightarrow>
          save_loop e serverName actualDimensions (Suc k) ts (successCount, Suc failureCount, st)
      | Inr ApiNull \<Rightarrow>
          save_loop e serverName actualDimensions (Suc k) ts (successCount, Suc failureCount, st)
      | Inr ApiNotArray \<Rightarrow>
          save_loop e serverName actualDimensions (Suc k) ts (successCount, Suc failureCount, st)
      | Inr (ApiArray embedding) \<Rightarrow>
          if embedding = [] then
            save_loop e serverName actualDimensions (Suc k) ts (successCount, Suc failureCount, st)
          else if length embedding \<noteq> actualDimensions then
            save_loop e serverName actualDimensions (Suc k) ts (successCount, Suc failureCount, st)
          else
            (let key = serverName @ '':'' @ tool_name t;
                 st1 = st\<lparr>db_log := db_log st
                          @ [SaveEmbedding k key text embedding (embeddingModel (openAIConfig e))]\<rparr>
             in case saveEmbedding e k key of
                  None \<Rightarrow>
                    save_loop e serverName actualDimensions (Suc k) ts
                      (Suc successCount, failureCount, st1)
                | Some saveError \<Rightarrow>
                    save_loop e serverName actualDimensions (Suc k) ts
                      (successCount, Suc failureCount, st1)))"

text \<open>The probe: the width of \<open>generateEmbedding('test')\<close>, or the error thrown when it
  cannot be determined or is zero.\<close>

definition probe :: "env \<Rightarrow> js_thrown + nat" where
  "probe e =
     (case embed e 0 ''test'' of
        Inl error \<Rightarrow> Inl (ErrorObj ''Cannot determine embedding dimensions from API'')
      | Inr (ApiArray testEmbedding) \<Rightarrow>
          if length testEmbedding = 0
          then Inl (ErrorObj (''API produced invalid embedding dimensions: 0. ''
                      @ ''Cannot determine correct vector size for the database.''))
          else Inr (length testEmbedding)
      | Inr other \<Rightarrow>
          Inl (ErrorObj (''API produced invalid embedding dimensions: undefined. ''
                 @ ''Cannot determine correct vector size for the database.'')))"

text \<open>The body of the outer \<open>try\<close>.\<close>

definition save_body ::
  "env \<Rightarrow> string \<Rightarrow> tool list \<Rightarrow> db_state \<Rightarrow> (js_thrown + unit) \<times> db_state" where
  "save_body e serverName tools st =
     (if tools = [] then (Inr (), st)
      else if \<not> smartRoutingEnabled e then (Inr (), st)
      else
        case (if \<not> isDatabaseConnected e then initDb e st else (Inr (), st)) of
          (Inl err, st0) \<Rightarrow> (Inl err, st0)
        | (Inr u, st0) \<Rightarrow>
            (case probe e of
               Inl err \<Rightarrow> (Inl err, st0)
             | Inr actualDimensions \<Rightarrow>
                 (case checkDatabaseVectorDimensions e (int actualDimensions) st0 of
                    (Inl dbCheckError, st1) \<Rightarrow> (Inl dbCheckError, st1)
                  | (Inr u, st1) \<Rightarrow>
                      (Inr (), snd (snd (save_loop e serverName actualDimensions 1 tools
                                           (0, 0, st1)))))))"

text \<open>The function itself: the outer \<open>catch\<close> logs the error and returns.\<close>

definition saveToolsAsVectorEmbeddings ::
  "env \<Rightarrow> string \<Rightarrow> tool list \<Rightarrow> db_state \<Rightarrow> (js_thrown + unit) \<times> db_state" where
  "saveToolsAsVectorEmbeddings e serverName tools st =
     (case save_body e serverName tools st of
        (Inl error, st1) \<Rightarrow> (Inr (), st1)
      | (Inr u, st1) \<Rightarrow> (Inr (), st1))"

text \<open>The generator of the service as the outcome of a call in a batch: \<open>loads k\<close> is what
  \<open>getOpenAIConfig\<close> does during the \<open>k\<close>-th call and \<open>transports k\<close> is the transport as it
  answers during that call.\<close>

definition service_embed ::
  "(nat \<Rightarrow> js_thrown + config) \<Rightarrow> (nat \<Rightarrow> transport) \<Rightarrow> nat \<Rightarrow> string \<Rightarrow> js_thrown + api_value" where
  "service_embed loads transports k text =
     (case generateEmbedding (loads k) (transports k) text of
        Inl error \<Rightarrow> Inl error
      | Inr embedding \<Rightarrow> Inr (ApiArray embedding))"

text \<open>Reading the log.\<close>

fun is_save :: "event \<Rightarrow> bool" where
  "is_save (SaveEmbedding k key text embedding model) = True"
| "is_save other = False"


section \<open>Search results\<close>

text \<open>
  Values that \<open>JSON.parse\<close> produces (and \<open>undefined\<close> for a property that is absent).
  The metadata of a row is either not a string or a string, given by what \<open>JSON.parse\<close>
  makes of it: \<open>None\<close> when it throws (the empty string, which is also falsy, included).
\<close>

datatype jv =
    JUndefined
  | JNull
  | JBool bool
  | JNum real
  | JStr string
  | JArr "jv list"
  | JObj "(string \<times> jv) list"

fun truthy :: "jv \<Rightarrow> bool" where
  "truthy JUndefined = False"
| "truthy JNull = False"
| "truthy (JBool b) = b"
| "truthy (JNum n) = (n \<noteq> 0)"
| "truthy (JStr s) = (s \<noteq> [])"
| "truthy (JArr xs) = True"
| "truthy (JObj kvs) = True"

text \<open>Reading one of the properties \<open>serverName\<close>, \<open>toolName\<close>, \<open>description\<close>,
  \<open>inputSchema\<close>: a TypeError on \<open>null\<close>, the last binding in an object, \<open>undefined\<close> on
  every other value.\<close>

fun get_prop :: "jv \<Rightarrow> string \<Rightarrow> js_thrown + jv" where
  "get_prop JNull p = Inl (ErrorObj ''Cannot read properties of null'')"
| "get_prop JUndefined p = Inl (ErrorObj ''Cannot read properties of undefined'')"
| "get_prop (JObj kvs) p = Inr (case map_of (rev kvs) p of Some v \<Rightarrow> v | None \<Rightarrow> JUndefined)"
| "get_prop other p = Inr JUndefined"

datatype metadata = MetaNotString | MetaString "jv option"

record embedding_row =
  text_content :: "string option"
  metadata :: metadata

record search_row =
  row_similarity :: real
  row_embedding :: "embedding_row option"

record search_result =
  res_serverName :: jv
  res_toolName :: jv
  res_description :: jv
  res_inputSchema :: jv
  res_similarity :: real
  res_searchableText :: "string option"

record vectorized_tool =
  vt_serverName :: jv
  vt_toolName :: jv
  vt_description :: jv
  vt_inputSchema :: jv

text \<open>\<open>serverNames.includes(v)\<close> for a list of strings.\<close>

fun names_include :: "string list \<Rightarrow> jv \<Rightarrow> bool" where
  "names_include serverNames (JStr s) = (s \<in> set serverNames)"
| "names_include serverNames other = False"

text \<open>The callback of the filter by server names. Reading \<open>result.embedding.metadata\<close>
  throws when the row has no embedding; what \<open>JSON.parse\<close> or the property read throws is
  caught and gives \<open>false\<close>.\<close>

definition server_filter :: "string list \<Rightarrow> search_row \<Rightarrow> js_thrown + bool" where
  "server_filter serverNames result =
     (case row_embedding result of
        None \<Rightarrow> Inl (ErrorObj ''Cannot read properties of undefined'')
      | Some emb \<Rightarrow>
          (case metadata emb of
             MetaString parsed \<Rightarrow>
               (case parsed of
                  None \<Rightarrow> Inr False
                | Some parsedMetadata \<Rightarrow>
                    (case get_prop parsedMetadata ''serverName'' of
                       Inl error \<Rightarrow> Inr False
                     | Inr v \<Rightarrow> Inr (names_include serverNames v)))
           | MetaNotString \<Rightarrow> Inr False))"

text \<open>\<open>results.filter(callback)\<close> with a callback that may throw.\<close>

fun filter_rows :: "(search_row \<Rightarrow> js_thrown + bool) \<Rightarrow> search_row list \<Rightarrow> js_thrown + search_row list" where
  "filter_rows f [] = Inr []"
| "filter_rows f (r # rs) =
     (case f r of
        Inl error \<Rightarrow> Inl error
      | Inr keep \<Rightarrow>
          (case filter_rows f rs of
             Inl error \<Rightarrow> Inl error
           | Inr kept \<Rightarrow> Inr (if keep then r # kept else kept)))"

definition filter_active :: "string list option \<Rightarrow> bool" where
  "filter_active serverNames = (case serverNames of Some ns \<Rightarrow> ns \<noteq> [] | None \<Rightarrow> False)"

definition apply_server_filter ::
  "string list option \<Rightarrow> search_row list \<Rightarrow> js_thrown + search_row list" where
  "apply_server_filter serverNames results =
     (case serverNames of
        Some ns \<Rightarrow> if ns \<noteq> [] then filter_rows (server_filter ns) results else Inr results
      | None \<Rightarrow> Inr results)"

text \<open>\<open>s.trim()\<close>\<close>

definition trim :: "string \<Rightarrow> string" where
  "trim s = rev (dropWhile is_space (rev (dropWhile is_space s)))"

text \<open>The extraction from \<open>text_content\<close>: \<open>match(/^(\S+)/)\<close> for the tool name,
  \<open>match(/^([^_]+)_/)\<close> on the tool name for the server name, and
  \<open>replace(/^\S+\s*/, '').trim()\<close> for the description.\<close>

definition extract_toolName :: "string \<Rightarrow> string" where
  "extract_toolName textContent = takeWhile (\<lambda>c. \<not> is_space c) textContent"

definition extract_serverName :: "string \<Rightarrow> string" where
  "extract_serverName toolName =
     (let p = takeWhile (\<lambda>c. c \<noteq> CHR ''_'') toolName;
          rest = dropWhile (\<lambda>c. c \<noteq> CHR ''_'') toolName
      in if p \<noteq> [] \<and> rest \<noteq> [] then p else ''unknown'')"

definition extract_description :: "string \<Rightarrow> string" where
  "extract_description textContent =
     trim (if takeWhile (\<lambda>c. \<not> is_space c) textContent \<noteq> []
           then dropWhile is_space (dropWhile (\<lambda>c. \<not> is_space c) textContent)
           else textContent)"

text \<open>\<open>result.embedding?.text_content || ''\<close>\<close>

definition textContent_of :: "search_row \<Rightarrow> string" where
  "textContent_of result =
     (case row_embedding result of
        Some emb \<Rightarrow> (case text_content emb of Some t \<Rightarrow> t | None \<Rightarrow> [])
      | None \<Rightarrow> [])"

definition heuristic_result :: "search_row \<Rightarrow> search_result" where
  "heuristic_result result =
     (let textContent = textContent_of result;
          toolName = extract_toolName textContent
      in \<lparr>res_serverName = JStr (extract_serverName toolName),
          res_toolName = JStr toolName,
          res_description = JStr (extract_description textContent),
          res_inputSchema = JObj [],
          res_similarity = row_similarity result,
          res_searchableText = Some textContent\<rparr>)"

text \<open>The first part of the callback of \<open>map\<close>: the record built from the metadata, when the
  metadata is a string that parses to a value with truthy \<open>serverName\<close> and \<open>toolName\<close>.\<close>

definition structured_result :: "search_row \<Rightarrow> search_result option" where
  "structured_result result =
     (case row_embedding result of
        None \<Rightarrow> None
      | Some emb \<Rightarrow>
          (case metadata emb of
             MetaNotString \<Rightarrow> None
           | MetaString None \<Rightarrow> None
           | MetaString (Some parsedMetadata) \<Rightarrow>
               (case (get_prop parsedMetadata ''serverName'', get_prop parsedMetadata ''toolName'',
                      get_prop parsedMetadata ''description'', get_prop parsedMetadata ''inputSchema'') of
                  (Inr sn, Inr tn, Inr d, Inr sch) \<Rightarrow>
                    if truthy sn \<and> truthy tn then
                      Some \<lparr>res_serverName = sn, res_toolName = tn,
                            res_description = (if truthy d then d else JStr []),
                            res_inputSchema = (if truthy sch then sch else JObj []),
                            res_similarity = row_similarity result,
                            res_searchableText = text_content emb\<rparr>
                    else None
                | _ \<Rightarrow> None)))"

definition transform_row :: "search_row \<Rightarrow> search_result" where
  "transform_row result =
     (case structured_result result of Some r \<Rightarrow> r | None \<Rightarrow> heuristic_result result)"

text \<open>\<open>searchToolsByVector\<close>: \<open>searchByText\<close> is what obtaining the repository and its
  \<open>searchByText\<close> did, a throw or the rows.\<close>

definition search_body ::
  "(js_thrown + search_row list) \<Rightarrow> string list option \<Rightarrow> js_thrown + search_result list" where
  "search_body searchByText serverNames =
     (case searchByText of
        Inl error \<Rightarrow> Inl error
      | Inr results \<Rightarrow>
          (case apply_server_filter serverNames results of
             Inl error \<Rightarrow> Inl error
           | Inr filteredResults \<Rightarrow> Inr (map transform_row filteredResults)))"

definition searchToolsByVector ::
  "(js_thrown + search_row list) \<Rightarrow> string list option \<Rightarrow> js_thrown + search_result list" where
  "searchToolsByVector searchByText serverNames =
     (case search_body searchByText serverNames of
        Inl error \<Rightarrow> Inr []
      | Inr found \<Rightarrow> Inr found)"

subsection \<open>getAllVectorizedTools\<close>

definition unknown_tool :: vectorized_tool where
  "unknown_tool =
     \<lparr>vt_serverName = JStr ''unknown'', vt_toolName = JStr ''unknown'',
      vt_description = JStr [], vt_inputSchema = JObj []\<rparr>"

definition list_row :: "search_row \<Rightarrow> js_thrown + vectorized_tool" where
  "list_row result =
     (case row_embedding result of
        None \<Rightarrow> Inl (ErrorObj ''Cannot read properties of undefined'')
      | Some emb \<Rightarrow>
          (case metadata emb of
             MetaNotString \<Rightarrow> Inr unknown_tool
           | MetaString None \<Rightarrow> Inr unknown_tool
           | MetaString (Some parsedMetadata) \<Rightarrow>
               (case (get_prop parsedMetadata ''serverName'', get_prop parsedMetadata ''toolName'',
                      get_prop parsedMetadata ''description'', get_prop parsedMetadata ''inputSchema'') of
                  (Inr sn, Inr tn, Inr d, Inr sch) \<Rightarrow>
                    Inr \<lparr>vt_serverName = sn, vt_toolName = tn, vt_description = d,
                         vt_inputSchema = sch\<rparr>
                | _ \<Rightarrow> Inr unknown_tool)))"

fun map_rows :: "(search_row \<Rightarrow> js_thrown + 'b) \<Rightarrow> search_row list \<Rightarrow> js_thrown + 'b list" where
  "map_rows f [] = Inr []"
| "map_rows f (r # rs) =
     (case f r of
        Inl error \<Rightarrow> Inl error
      | Inr y \<Rightarrow> (case map_rows f rs of Inl error \<Rightarrow> Inl error | Inr ys \<Rightarrow> Inr (y # ys)))"

text \<open>The environment of \<open>getAllVectorizedTools\<close>: what \<open>getOpenAIConfig\<close> did, what the
  query for the declared width did (the \<open>dimensions\<close> of its rows), and what \<open>searchSimilar\<close>
  does for a probe vector of a given length.\<close>

record list_env =
  getOpenAIConfig :: "js_thrown + config"
  dimensionRows :: "js_thrown + int list"
  searchSimilar :: "nat \<Rightarrow> js_thrown + search_row list"

definition dimensionsToUse :: "config \<Rightarrow> js_thrown + int list \<Rightarrow> int" where
  "dimensionsToUse cfg rows =
     (let byModel = int (getDimensionsForModel (embeddingModel cfg)) in
      case rows of
        Inl error \<Rightarrow> byModel
      | Inr result \<Rightarrow>
          if result \<noteq> [] \<and> hd result \<noteq> 0
          then (let rawValue = hd result in if rawValue = - 1 then byModel else rawValue)
          else byModel)"

definition list_body :: "list_env \<Rightarrow> string list option \<Rightarrow> js_thrown + vectorized_tool list" where
  "list_body le serverNames =
     (case getOpenAIConfig le of
        Inl error \<Rightarrow> Inl error
      | Inr cfg \<Rightarrow>
          (let d = dimensionsToUse cfg (dimensionRows le) in
           if d < 0 \<or> d > 4294967295 then Inl (ErrorObj ''Invalid array length'')
           else
             case searchSimilar le (nat d) of
               Inl error \<Rightarrow> Inl error
             | Inr results \<Rightarrow>
                 (case apply_server_filter serverNames results of
                    Inl error \<Rightarrow> Inl error
                  | Inr filteredResults \<Rightarrow> map_rows list_row filteredResults)))"

definition getAllVectorizedTools ::
  "list_env \<Rightarrow> string list option \<Rightarrow> js_thrown + vectorized_tool list" where
  "getAllVectorizedTools le serverNames =
     (case list_body le serverNames of
        Inl error \<Rightarrow> Inr []
      | Inr found \<Rightarrow> Inr found)"

subsection \<open>removeServerToolEmbeddings\<close>

record remove_env =
  rm_isDatabaseConnected :: bool
  rm_smartRoutingDbUrl :: "js_thrown + string option"
  rm_envDbUrl :: "string option"
  rm_initializeDatabase :: "js_thrown option"
  rm_deleteByServerName :: "string \<Rightarrow> js_thrown + nat"

definition url_set :: "string option \<Rightarrow> bool" where
  "url_set u = (case u of Some s \<Rightarrow> s \<noteq> [] | None \<Rightarrow> False)"

text \<open>The body of the \<open>try\<close>; the log holds the calls made to the connection and to the
  repository.\<close>

definition remove_body :: "remove_env \<Rightarrow> string \<Rightarrow> event list \<Rightarrow> (js_thrown + unit) \<times> event list" where
  "remove_body re serverName evs =
     (if \<not> rm_isDatabaseConnected re then
        (case rm_smartRoutingDbUrl re of
           Inl error \<Rightarrow> (Inl error, evs)
         | Inr dbUrl \<Rightarrow>
             if \<not> url_set dbUrl \<and> \<not> url_set (rm_envDbUrl re) then (Inr (), evs)
             else
               (case rm_initializeDatabase re of
                  Some error \<Rightarrow> (Inl error, evs @ [InitDb])
                | None \<Rightarrow>
                    (case rm_deleteByServerName re serverName of
                       Inl error \<Rightarrow> (Inl error, evs @ [InitDb, DeleteByServerName serverName])
                     | Inr removedCount \<Rightarrow>
                         (Inr (), evs @ [InitDb, DeleteByServerName serverName]))))
      else
        (case rm_deleteByServerName re serverName of
           Inl error \<Rightarrow> (Inl error, evs @ [DeleteByServerName serverName])
         | Inr removedCount \<Rightarrow> (Inr (), evs @ [DeleteByServerName serverName])))"

definition removeServerToolEmbeddings ::
  "remove_env \<Rightarrow> string \<Rightarrow> event list \<Rightarrow> (js_thrown + unit) \<times> event list" where
  "removeServerToolEmbeddings re serverName evs =
     (case remove_body re serverName evs of
        (Inl error, evs1) \<Rightarrow> (Inr (), evs1)
      | (Inr u, evs1) \<Rightarrow> (Inr (), evs1))"

section \<open>Definitions used in the statements\<close>

text \<open>The conventional name of the index of a column.\<close>

definition conventional_index :: "string \<Rightarrow> string \<Rightarrow> string" where
  "conventional_index tableName columnName = ''idx_'' @ tableName @ ''_'' @ columnName"

text \<open>Sample databases and data sources.\<close>

definition empty_db :: db_state where
  "empty_db = \<lparr>db_records = [], db_declared = None, db_index = None, db_log = []\<rparr>"

definition local_config :: config where
  "local_config =
     \<lparr>apiKey = ''key'', baseURL = ''http://localhost:1234/v1'', embeddingModel = ''bge-m3''\<rparr>"

definition hnsw_unsupported :: data_source where
  "hnsw_unsupported q =
     (case q of CreateHnsw n t c \<Rightarrow> Some (ErrorObj ''access method hnsw does not exist'')
      | _ \<Rightarrow> None)"

text \<open>The first half of a round of the fallback embedder: the vocabulary position.\<close>

definition vocabulary_round :: "real list \<Rightarrow> string \<Rightarrow> real list" where
  "vocabulary_round v w =
     (case indexOf vocabulary w of
        Some i \<Rightarrow> if i < length v then v[i := v ! i + 1] else v
      | None \<Rightarrow> v)"

text \<open>
  The condition of the specification for using the metadata of a row directly: it is a
  string, it parses, and the parsed value has a truthy \<open>serverName\<close> and a truthy
  \<open>toolName\<close>.
\<close>

definition metadata_usable :: "search_row \<Rightarrow> bool" where
  "metadata_usable r =
     (case row_embedding r of
        None \<Rightarrow> False
      | Some emb \<Rightarrow>
          (case metadata emb of
             MetaNotString \<Rightarrow> False
           | MetaString None \<Rightarrow> False
           | MetaString (Some pm) \<Rightarrow>
               (case get_prop pm ''serverName'' of
                  Inl err \<Rightarrow> False
                | Inr sn \<Rightarrow>
                    truthy sn \<and>
                    (case get_prop pm ''toolName'' of Inl err \<Rightarrow> False | Inr tn \<Rightarrow> truthy tn))))"

text \<open>The metadata of a row is a string that \<open>JSON.parse\<close> accepts.\<close>

definition metadata_parses :: "search_row \<Rightarrow> bool" where
  "metadata_parses r =
     (case row_embedding r of
        None \<Rightarrow> False
      | Some emb \<Rightarrow>
          (case metadata emb of
             MetaNotString \<Rightarrow> False
           | MetaString None \<Rightarrow> False
           | MetaString (Some pm) \<Rightarrow> True))"

text \<open>Sample rows.\<close>

definition row_invalid_json :: search_row where
  "row_invalid_json =
     \<lparr>row_similarity = 95 / 100,
      row_embedding = Some \<lparr>text_content = Some ''server1_tool1 tool description'',
                             metadata = MetaString None\<rparr>\<rparr>"

definition row_leading_underscore :: search_row where
  "row_leading_underscore =
     \<lparr>row_similarity = 9 / 10,
      row_embedding = Some \<lparr>text_content = Some ''_tool desc'', metadata = MetaNotString\<rparr>\<rparr>"

definition row_leading_space :: search_row where
  "row_leading_space =
     \<lparr>row_similarity = 9 / 10,
      row_embedding = Some \<lparr>text_content = Some '' foo bar'', metadata = MetaNotString\<rparr>\<rparr>"

definition row_server_a :: search_row where
  "row_server_a =
     \<lparr>row_similarity = 9 / 10,
      row_embedding = Some \<lparr>text_content = Some ''tool1 first'',
         metadata = MetaString (Some (JObj [(''serverName'', JStr ''a''), (''toolName'', JStr ''tool1'')]))\<rparr>\<rparr>"

text \<open>A row whose metadata parses and names the server \<open>a\<close>, but has no \<open>toolName\<close>.\<close>

definition row_server_only :: search_row where
  "row_server_only =
     \<lparr>row_similarity = 8 / 10,
      row_embedding = Some \<lparr>text_content = Some ''tool9 ninth tool'',
         metadata = MetaString (Some (JObj [(''serverName'', JStr ''a'')]))\<rparr>\<rparr>"

definition row_no_embedding :: search_row where
  "row_no_embedding = \<lparr>row_similarity = 1 / 2, row_embedding = None\<rparr>"

text \<open>Sample environments of the listing and of the removal.\<close>

definition list_env_sample :: list_env where
  "list_env_sample =
     \<lparr>getOpenAIConfig = Inr local_config, dimensionRows = Inr [1024],
      searchSimilar = (\<lambda>n. Inr [row_server_a, row_invalid_json, row_server_only])\<rparr>"

definition failing_list_env :: list_env where
  "failing_list_env =
     \<lparr>getOpenAIConfig = Inr local_config, dimensionRows = Inr [1024],
      searchSimilar = (\<lambda>n. Inl (ErrorObj ''Search failed''))\<rparr>"

definition failing_remove_env :: remove_env where
  "failing_remove_env =
     \<lparr>rm_isDatabaseConnected = True, rm_smartRoutingDbUrl = Inr None, rm_envDbUrl = None,
      rm_initializeDatabase = None,
      rm_deleteByServerName = (\<lambda>s. Inl (ErrorObj ''Delete failed''))\<rparr>"

text \<open>Reading the log of a batch.\<close>

fun is_create :: "event \<Rightarrow> bool" where
  "is_create (Query (CreateHnsw n t c)) = True"
| "is_create (Query (CreateIvfflat n t c)) = True"
| "is_create (Query (CreateHalfvec n t c d)) = True"
| "is_create other = False"


definition new_events :: "db_state \<Rightarrow> db_state \<Rightarrow> event list" where
  "new_events st st' = drop (length (db_log st)) (db_log st')"

text \<open>The probe gives no width: the generator threw, or gave no array, or an empty one.\<close>

definition probe_undetermined :: "env \<Rightarrow> bool" where
  "probe_undetermined e =
     (case embed e 0 ''test'' of Inr (ApiArray v) \<Rightarrow> v = [] | _ \<Rightarrow> True)"


text \<open>The log of \<open>st'\<close> is the log of \<open>st\<close> followed by events that are not calls of
  \<open>saveEmbedding\<close>.\<close>

definition grows_without_save :: "db_state \<Rightarrow> db_state \<Rightarrow> bool" where
  "grows_without_save st st' =
     (\<exists>evs. db_log st' = db_log st @ evs \<and> \<not> list_ex is_save evs)"

text \<open>A sample batch: the probe gives width 3, the first tool gets a vector of width 2,
  the second one of width 3; the database accepts every statement and declares width
  1024.\<close>

definition tool_a :: tool where
  "tool_a = \<lparr>tool_name = ''tool_a'', tool_description = ''First tool'', tool_inputSchema = None\<rparr>"

definition tool_b :: tool where
  "tool_b = \<lparr>tool_name = ''tool_b'', tool_description = ''Second tool'', tool_inputSchema = None\<rparr>"

definition sample_env :: env where
  "sample_env =
     \<lparr>smartRoutingEnabled = True, isDatabaseConnected = True, isInitialized = True,
      initializeDatabase = None, openAIConfig = local_config,
      embed = (\<lambda>k t. Inr (ApiArray (if k = 1 then [1, 0] else [0, 1, 0]))),
      dataSource = (\<lambda>q. None),
      typeInfoRows = [], attTypModRows = [1024], recordDimsRows = [],
      saveEmbedding = (\<lambda>k key. None)\<rparr>"

text \<open>The same, with the generator of the service while the configuration cannot be
  loaded.\<close>

definition probe_fails_env :: env where
  "probe_fails_env =
     sample_env\<lparr>embed := service_embed (\<lambda>k. Inl (ErrorObj ''settings unavailable''))
                                        (\<lambda>k t c. Inr (ApiArray [1, 0, 0]))\<rparr>"

text \<open>The same, with a database that rejects every creation of an index.\<close>

definition no_index_env :: env where
  "no_index_env =
     sample_env\<lparr>dataSource :=
       (\<lambda>q. if is_create (Query q) then Some (ErrorObj ''index method unavailable'') else None)\<rparr>"

text \<open>The same, with a database that rejects the alteration of the column.\<close>

definition no_alter_env :: env where
  "no_alter_env =
     sample_env\<lparr>dataSource :=
       (\<lambda>q. case q of AlterColumn n \<Rightarrow> Some (ErrorObj ''cannot alter'') | _ \<Rightarrow> None)\<rparr>"

text \<open>The same as \<open>no_alter_env\<close>, with a database that is not connected when the batch starts
  (the batch initialises it).\<close>

definition lazy_no_alter_env :: env where
  "lazy_no_alter_env = no_alter_env\<lparr>isDatabaseConnected := False\<rparr>"


text \<open>The error that \<open>checkDatabaseVectorDimensions\<close> throws for an error caught inside.\<close>

definition check_failed :: "js_thrown \<Rightarrow> js_thrown" where
  "check_failed error = ErrorObj (''Vector dimension check failed: '' @ message_or_unknown error)"

text \<open>
  The server name that the metadata of a row gives: the metadata is a string that
  \<open>JSON.parse\<close> accepts and the property \<open>serverName\<close> of the parsed value is a string. A row
  passes a list of server names when its metadata gives one of them.
\<close>

definition named_server :: "search_row \<Rightarrow> string option" where
  "named_server r =
     (case row_embedding r of
        None \<Rightarrow> None
      | Some emb \<Rightarrow>
          (case metadata emb of
             MetaNotString \<Rightarrow> None
           | MetaString None \<Rightarrow> None
           | MetaString (Some pm) \<Rightarrow>
               (case get_prop pm ''serverName'' of Inr (JStr s) \<Rightarrow> Some s | _ \<Rightarrow> None)))"

definition passes_filter :: "string list \<Rightarrow> search_row \<Rightarrow> bool" where
  "passes_filter ns r = (case named_server r of Some s \<Rightarrow> s \<in> set ns | None \<Rightarrow> False)"

definition has_embedding :: "search_row \<Rightarrow> bool" where
  "has_embedding r = (row_embedding r \<noteq> None)"


section \<open>Properties of the width lookup\<close>

lemma includes_lower_if_contains:
  assumes "contains_ignoring_case name pat"
  shows "js_includes (toLowerCase name) (toLowerCase pat)"
proof -
  from assms obtain b m a where nm: "name = b @ m @ a" and lm: "toLowerCase m = toLowerCase pat"
    unfolding contains_ignoring_case_def same_ignoring_case_def by blast
  have "toLowerCase name = toLowerCase b @ toLowerCase m @ toLowerCase a"
    unfolding nm toLowerCase_def by simp
  then have "toLowerCase name = toLowerCase b @ toLowerCase pat @ toLowerCase a"
    by (simp only: lm)
  then show ?thesis
    unfolding js_includes_def sublist_def by (intro exI)
qed

lemma contains_if_includes_lower:
  assumes "js_includes (toLowerCase name) (toLowerCase pat)"
  shows "contains_ignoring_case name pat"
proof -
  from assms have "\<exists>ps ss. toLowerCase name = ps @ toLowerCase pat @ ss"
    unfolding js_includes_def sublist_def .
  then obtain ps ss where eq: "map toLowerCase_char name = ps @ toLowerCase pat @ ss"
    unfolding toLowerCase_def[of name] by (elim exE)
  from eq have "\<exists>us vs. name = us @ vs \<and> ps = map toLowerCase_char us
      \<and> toLowerCase pat @ ss = map toLowerCase_char vs"
    by (rule map_eq_append_conv[THEN iffD1])
  then obtain b rest where 1: "name = b @ rest"
    and r: "map toLowerCase_char rest = toLowerCase pat @ ss"
    by (elim exE conjE) (rule that, assumption, rule sym, assumption)
  from r have "\<exists>us vs. rest = us @ vs \<and> toLowerCase pat = map toLowerCase_char us
      \<and> ss = map toLowerCase_char vs"
    by (rule map_eq_append_conv[THEN iffD1])
  then obtain m a where 2: "rest = m @ a" and l: "toLowerCase pat = map toLowerCase_char m"
    by (elim exE conjE) (rule that, assumption, assumption)
  have "name = b @ m @ a" unfolding 1 2 by (rule refl)
  moreover have "same_ignoring_case m pat"
    unfolding same_ignoring_case_def l toLowerCase_def[of m] by (rule refl)
  ultimately have "name = b @ m @ a \<and> same_ignoring_case m pat" by (rule conjI)
  then show ?thesis
    unfolding contains_ignoring_case_def by (intro exI)
qed

lemma contains_ignoring_case_iff:
  "contains_ignoring_case name pat \<longleftrightarrow> js_includes (toLowerCase name) (toLowerCase pat)"
  using includes_lower_if_contains contains_if_includes_lower by (rule iffI)

lemma lower_patterns:
  "toLowerCase ''bge-m3'' = ''bge-m3''"
  "toLowerCase ''nomic-embed-text'' = ''nomic-embed-text''"
  "toLowerCase ''text-embedding-3-large'' = ''text-embedding-3-large''"
  "toLowerCase ''text-embedding-3-small'' = ''text-embedding-3-small''"
  "toLowerCase ''fallback'' = ''fallback''"
  "toLowerCase ''simple-hash'' = ''simple-hash''"
  by code_simp+

lemma contains_pattern:
  "contains_ignoring_case name ''bge-m3'' = js_includes (toLowerCase name) ''bge-m3''"
  "contains_ignoring_case name ''nomic-embed-text'' = js_includes (toLowerCase name) ''nomic-embed-text''"
  "contains_ignoring_case name ''text-embedding-3-large'' = js_includes (toLowerCase name) ''text-embedding-3-large''"
  "contains_ignoring_case name ''text-embedding-3-small'' = js_includes (toLowerCase name) ''text-embedding-3-small''"
proof -
  show "contains_ignoring_case name ''bge-m3'' = js_includes (toLowerCase name) ''bge-m3''"
    using contains_ignoring_case_iff[of name "''bge-m3''"] unfolding lower_patterns .
  show "contains_ignoring_case name ''nomic-embed-text'' = js_includes (toLowerCase name) ''nomic-embed-text''"
    using contains_ignoring_case_iff[of name "''nomic-embed-text''"] unfolding lower_patterns .
  show "contains_ignoring_case name ''text-embedding-3-large'' = js_includes (toLowerCase name) ''text-embedding-3-large''"
    using contains_ignoring_case_iff[of name "''text-embedding-3-large''"] unfolding lower_patterns .
  show "contains_ignoring_case name ''text-embedding-3-small'' = js_includes (toLowerCase name) ''text-embedding-3-small''"
    using contains_ignoring_case_iff[of name "''text-embedding-3-small''"] unfolding lower_patterns .
qed

lemma same_pattern:
  "same_ignoring_case name ''fallback'' = (toLowerCase name = ''fallback'')"
  "same_ignoring_case name ''simple-hash'' = (toLowerCase name = ''simple-hash'')"
  unfolding same_ignoring_case_def lower_patterns by (rule refl)+

text \<open>
  Claim C6. The width of a model is a function of its name alone, and it is the table of the
  specification: the first of \<open>bge-m3\<close> (1024), \<open>nomic-embed-text\<close> (768),
  \<open>text-embedding-3-large\<close> (3072), \<open>text-embedding-3-small\<close> (1536) that occurs in the name,
  letter case ignored; otherwise 100 when the whole name is \<open>fallback\<close> or \<open>simple-hash\<close>
  (letter case ignored, as for the patterns); otherwise 1536.
\<close>

theorem getDimensionsForModel_table: "getDimensionsForModel name = spec_width name"
proof -
  let ?l = "toLowerCase name"
  consider (bge) "js_includes ?l ''bge-m3''"
    | (nomic) "\<not> js_includes ?l ''bge-m3''" "js_includes ?l ''nomic-embed-text''"
    | (large) "\<not> js_includes ?l ''bge-m3''" "\<not> js_includes ?l ''nomic-embed-text''"
        "js_includes ?l ''text-embedding-3-large''"
    | (small) "\<not> js_includes ?l ''bge-m3''" "\<not> js_includes ?l ''nomic-embed-text''"
        "\<not> js_includes ?l ''text-embedding-3-large''" "js_includes ?l ''text-embedding-3-small''"
    | (none) "\<not> js_includes ?l ''bge-m3''" "\<not> js_includes ?l ''nomic-embed-text''"
        "\<not> js_includes ?l ''text-embedding-3-large''" "\<not> js_includes ?l ''text-embedding-3-small''"
    by blast
  then show ?thesis
    unfolding getDimensionsForModel_def spec_width_def width_table_def find.simps prod.case
      contains_pattern same_pattern Let_def BGE_DIMENSIONS_def NOMIC_DIMENSIONS_def
      EMBEDDING_DIMENSIONS_LARGE_def EMBEDDING_DIMENSIONS_SMALL_def FALLBACK_DIMENSIONS_def
    by cases (simp_all only: if_True if_False option.case prod.case)
qed

theorem getDimensionsForModel_table_witness:
  "getDimensionsForModel ''BAAI/BGE-M3-Q5_K_M.gguf'' = 1024
   \<and> spec_width ''BAAI/BGE-M3-Q5_K_M.gguf'' = 1024"
proof -
  have "getDimensionsForModel ''BAAI/BGE-M3-Q5_K_M.gguf'' = 1024" by code_simp
  then show ?thesis using getDimensionsForModel_table[of "''BAAI/BGE-M3-Q5_K_M.gguf''"] by simp
qed


section \<open>Properties of createVectorIndex\<close>

lemma show_4000: "show_int 4000 = ''4000''"
  by code_simp

lemma index_le_2000:
  assumes "dims \<le> 2000"
  shows "(ds (CreateHnsw (conventional_index t c) t c) = None \<longrightarrow>
         success (fst (createVectorIndex ds dims t c st))
         \<and> indexType (fst (createVectorIndex ds dims t c st)) = Some ''hnsw''
         \<and> db_log (snd (createVectorIndex ds dims t c st)) = db_log st @
             [Query (DropIndex (conventional_index t c)),
              Query (CreateHnsw (conventional_index t c) t c)])
    \<and> (ds (CreateHnsw (conventional_index t c) t c) \<noteq> None \<longrightarrow>
         db_log (snd (createVectorIndex ds dims t c st)) = db_log st @
             [Query (DropIndex (conventional_index t c)),
              Query (CreateHnsw (conventional_index t c) t c),
              Query (CreateIvfflat (conventional_index t c) t c)]
         \<and> (ds (CreateIvfflat (conventional_index t c) t c) = None \<longrightarrow>
               success (fst (createVectorIndex ds dims t c st))
               \<and> indexType (fst (createVectorIndex ds dims t c st)) = Some ''ivfflat'')
         \<and> (ds (CreateIvfflat (conventional_index t c) t c) \<noteq> None \<longrightarrow>
               \<not> success (fst (createVectorIndex ds dims t c st))
               \<and> indexType (fst (createVectorIndex ds dims t c st)) = None))"
  using assms
  unfolding createVectorIndex_def query_def Let_def conventional_index_def
    VECTOR_MAX_DIMENSIONS_def HALFVEC_MAX_DIMENSIONS_def
  by (cases "ds (DropIndex (''idx_'' @ t @ ''_'' @ c))";
      cases "ds (CreateHnsw (''idx_'' @ t @ ''_'' @ c) t c)";
      cases "ds (CreateIvfflat (''idx_'' @ t @ ''_'' @ c) t c)";
      simp)

lemma index_le_4000:
  assumes "2000 < dims" "dims \<le> 4000"
  shows "db_log (snd (createVectorIndex ds dims t c st)) = db_log st @
             [Query (DropIndex (conventional_index t c)),
              Query (CreateHalfvec (conventional_index t c) t c dims)]
        \<and> (ds (CreateHalfvec (conventional_index t c) t c dims) = None \<longrightarrow>
               success (fst (createVectorIndex ds dims t c st))
               \<and> indexType (fst (createVectorIndex ds dims t c st)) = Some ''hnsw-halfvec'')
        \<and> (ds (CreateHalfvec (conventional_index t c) t c dims) \<noteq> None \<longrightarrow>
               \<not> success (fst (createVectorIndex ds dims t c st))
               \<and> indexType (fst (createVectorIndex ds dims t c st)) = None)"
  using assms
  unfolding createVectorIndex_def query_def Let_def conventional_index_def
    VECTOR_MAX_DIMENSIONS_def HALFVEC_MAX_DIMENSIONS_def
  by (cases "ds (DropIndex (''idx_'' @ t @ ''_'' @ c))";
      cases "ds (CreateHalfvec (''idx_'' @ t @ ''_'' @ c) t c dims)";
      simp)

lemma index_gt_4000:
  assumes "4000 < dims"
  shows "\<not> success (fst (createVectorIndex ds dims t c st))
        \<and> indexType (fst (createVectorIndex ds dims t c st)) = None
        \<and> message (fst (createVectorIndex ds dims t c st)) =
            ''Dimensions ('' @ show_int dims @ '') exceed maximum indexable limit (4000)''
        \<and> db_log (snd (createVectorIndex ds dims t c st)) = db_log st @
             [Query (DropIndex (conventional_index t c))]"
  using assms
  unfolding createVectorIndex_def query_def Let_def conventional_index_def
    VECTOR_MAX_DIMENSIONS_def HALFVEC_MAX_DIMENSIONS_def
  by (cases "ds (DropIndex (''idx_'' @ t @ ''_'' @ c))"; simp add: show_4000)

text \<open>
  Claim C5. \<open>createVectorIndex\<close> follows the decision tree on the width, after the drop of
  the existing index that it always sends first. For a width up to 2000 it tries HNSW and,
  when that is rejected, IVFFlat, answering \<open>hnsw\<close> or \<open>ivfflat\<close> on success and failure
  with no kind when both are rejected; for a width from 2001 to 4000 it tries only the
  half-precision HNSW index (no IVFFlat after it), answering \<open>hnsw-halfvec\<close> on success and
  failure with no kind otherwise; for a width above 4000 it answers failure with no kind
  and a message that names the limit 4000, and attempts no creation of an index: the
  statements sent are exactly the ones listed.
\<close>

theorem createVectorIndex_tree:
  "(dims \<le> 2000 \<longrightarrow>
      (ds (CreateHnsw (conventional_index t c) t c) = None \<longrightarrow>
         success (fst (createVectorIndex ds dims t c st))
         \<and> indexType (fst (createVectorIndex ds dims t c st)) = Some ''hnsw''
         \<and> db_log (snd (createVectorIndex ds dims t c st)) = db_log st @
             [Query (DropIndex (conventional_index t c)),
              Query (CreateHnsw (conventional_index t c) t c)])
    \<and> (ds (CreateHnsw (conventional_index t c) t c) \<noteq> None \<longrightarrow>
         db_log (snd (createVectorIndex ds dims t c st)) = db_log st @
             [Query (DropIndex (conventional_index t c)),
              Query (CreateHnsw (conventional_index t c) t c),
              Query (CreateIvfflat (conventional_index t c) t c)]
         \<and> (ds (CreateIvfflat (conventional_index t c) t c) = None \<longrightarrow>
               success (fst (createVectorIndex ds dims t c st))
               \<and> indexType (fst (createVectorIndex ds dims t c st)) = Some ''ivfflat'')
         \<and> (ds (CreateIvfflat (conventional_index t c) t c) \<noteq> None \<longrightarrow>
               \<not> success (fst (createVectorIndex ds dims t c st))
               \<and> indexType (fst (createVectorIndex ds dims t c st)) = None)))
   \<and> (2000 < dims \<and> dims \<le> 4000 \<longrightarrow>
        db_log (snd (createVectorIndex ds dims t c st)) = db_log st @
             [Query (DropIndex (conventional_index t c)),
              Query (CreateHalfvec (conventional_index t c) t c dims)]
        \<and> (ds (CreateHalfvec (conventional_index t c) t c dims) = None \<longrightarrow>
               success (fst (createVectorIndex ds dims t c st))
               \<and> indexType (fst (createVectorIndex ds dims t c st)) = Some ''hnsw-halfvec'')
        \<and> (ds (CreateHalfvec (conventional_index t c) t c dims) \<noteq> None \<longrightarrow>
               \<not> success (fst (createVectorIndex ds dims t c st))
               \<and> indexType (fst (createVectorIndex ds dims t c st)) = None))
   \<and> (4000 < dims \<longrightarrow>
        \<not> success (fst (createVectorIndex ds dims t c st))
        \<and> indexType (fst (createVectorIndex ds dims t c st)) = None
        \<and> message (fst (createVectorIndex ds dims t c st)) =
            ''Dimensions ('' @ show_int dims @ '') exceed maximum indexable limit (4000)''
        \<and> db_log (snd (createVectorIndex ds dims t c st)) = db_log st @
             [Query (DropIndex (conventional_index t c))])"
  (is "(_ \<longrightarrow> ?A) \<and> (_ \<longrightarrow> ?B) \<and> (_ \<longrightarrow> ?C)")
proof -
  have a: "dims \<le> 2000 \<longrightarrow> ?A"
    by (rule impI) (rule index_le_2000)
  have b: "2000 < dims \<and> dims \<le> 4000 \<longrightarrow> ?B"
    by (rule impI, erule conjE) (rule index_le_4000)
  have c: "4000 < dims \<longrightarrow> ?C"
    by (rule impI) (rule index_gt_4000)
  show ?thesis by (intro conjI a b c)
qed

theorem createVectorIndex_tree_witness:
  "indexType (fst (createVectorIndex hnsw_unsupported 1536 ''t'' ''c'' empty_db)) = Some ''ivfflat''
   \<and> indexType (fst (createVectorIndex hnsw_unsupported 3072 ''t'' ''c'' empty_db))
       = Some ''hnsw-halfvec''
   \<and> db_log (snd (createVectorIndex hnsw_unsupported 4001 ''t'' ''c'' empty_db))
       = [Query (DropIndex (conventional_index ''t'' ''c''))]"
proof -
  have h: "hnsw_unsupported (CreateHnsw n t c) \<noteq> None"
    "hnsw_unsupported (CreateIvfflat n t c) = None"
    "hnsw_unsupported (CreateHalfvec n t c d) = None" for n t c d
    by (simp_all add: hnsw_unsupported_def)
  have e: "db_log empty_db = []" by (simp add: empty_db_def)
  have n: "(1536::int) \<le> 2000" "(2000::int) < 3072 \<and> (3072::int) \<le> 4000" "(4000::int) < 4001"
    by simp_all
  note t1 = createVectorIndex_tree[of 1536 hnsw_unsupported "''t''" "''c''" empty_db]
  note t2 = createVectorIndex_tree[of 3072 hnsw_unsupported "''t''" "''c''" empty_db]
  note t3 = createVectorIndex_tree[of 4001 hnsw_unsupported "''t''" "''c''" empty_db]
  from t1[THEN conjunct1, THEN mp, OF n(1), THEN conjunct2, THEN mp, OF h(1)]
  have 1: "indexType (fst (createVectorIndex hnsw_unsupported 1536 ''t'' ''c'' empty_db)) = Some ''ivfflat''"
    by (simp only: h simp_thms)
  from t2[THEN conjunct2, THEN conjunct1, THEN mp, OF n(2)]
  have 2: "indexType (fst (createVectorIndex hnsw_unsupported 3072 ''t'' ''c'' empty_db)) = Some ''hnsw-halfvec''"
    by (simp only: h simp_thms)
  from t3[THEN conjunct2, THEN conjunct2, THEN mp, OF n(3)]
  have 3: "db_log (snd (createVectorIndex hnsw_unsupported 4001 ''t'' ''c'' empty_db))
       = [Query (DropIndex (conventional_index ''t'' ''c''))]"
    unfolding e append_Nil by (elim conjE)
  show ?thesis by (intro conjI 1 2 3)
qed


section \<open>Properties of the embedding generator\<close>

lemma split_ws_not_Nil: "split_ws s \<noteq> []"
  by (subst split_ws.simps) (simp add: Let_def)

lemma length_fallback_word: "length (fallback_word v w) = length v"
  by (simp add: fallback_word_def Let_def split: option.split)

lemma nonneg_update:
  assumes "\<forall>x\<in>set v. (0::real) \<le> x" and "0 \<le> y"
  shows "\<forall>x\<in>set (v[i := y]). 0 \<le> x"
proof -
  have "set (v[i := y]) \<subseteq> insert y (set v)" by (rule set_update_subset_insert)
  then show ?thesis using assms by blast
qed

lemma nonneg_bump:
  assumes "\<forall>x\<in>set v. (0::real) \<le> x" and "0 \<le> d"
  shows "\<forall>x\<in>set (v[i := v ! i + d]). 0 \<le> x"
proof (cases "i < length v")
  case True
  then have "0 \<le> v ! i" using assms(1) by simp
  then have "0 \<le> v ! i + d" using assms(2) by simp
  with assms(1) show ?thesis by (rule nonneg_update)
next
  case False
  then have "v[i := v ! i + d] = v" by (simp add: list_update_beyond)
  then show ?thesis using assms(1) by simp
qed

lemma fallback_word_alt:
  "fallback_word v w =
     (vocabulary_round v w)[char_hash w mod length v :=
        vocabulary_round v w ! (char_hash w mod length v) + 1 / 10]"
  by (simp add: fallback_word_def vocabulary_round_def Let_def split: option.split)

lemma length_vocabulary_round: "length (vocabulary_round v w) = length v"
  by (simp add: vocabulary_round_def split: option.split)

lemma nonneg_vocabulary_round:
  assumes "\<forall>x\<in>set v. 0 \<le> x"
  shows "\<forall>x\<in>set (vocabulary_round v w). 0 \<le> x"
proof (cases "indexOf vocabulary w")
  case None
  then show ?thesis using assms by (simp add: vocabulary_round_def)
next
  case (Some i)
  have "\<forall>x\<in>set (v[i := v ! i + 1]). 0 \<le> x" using assms by (rule nonneg_bump) simp
  then show ?thesis using Some assms by (simp add: vocabulary_round_def)
qed

lemma nonneg_fallback_word:
  assumes "\<forall>x\<in>set v. 0 \<le> x"
  shows "\<forall>x\<in>set (fallback_word v w). 0 \<le> x"
  unfolding fallback_word_alt
  using nonneg_vocabulary_round[OF assms] by (rule nonneg_bump) simp

lemma positive_fallback_word:
  assumes "\<forall>x\<in>set v. 0 \<le> x" and "v \<noteq> []"
  shows "\<exists>x\<in>set (fallback_word v w). 0 < x"
proof -
  let ?v1 = "vocabulary_round v w"
  let ?j = "char_hash w mod length v"
  have j: "?j < length ?v1" using assms(2) by (simp add: length_vocabulary_round)
  have "0 \<le> ?v1 ! ?j" using nonneg_vocabulary_round[OF assms(1), of w] j by simp
  then have pos: "0 < ?v1 ! ?j + 1 / 10" by simp
  have "?v1 ! ?j + 1 / 10 \<in> set (fallback_word v w)"
    unfolding fallback_word_alt using j by (rule set_update_memI)
  from this pos show ?thesis by (rule rev_bexI)
qed

lemma fallback_fold:
  assumes "\<forall>x\<in>set v. 0 \<le> x" and "v \<noteq> []" and "ws \<noteq> []"
  shows "length (foldl fallback_word v ws) = length v
    \<and> (\<forall>x\<in>set (foldl fallback_word v ws). 0 \<le> x)
    \<and> (\<exists>x\<in>set (foldl fallback_word v ws). 0 < x)"
  using assms
proof (induction ws arbitrary: v)
  case Nil
  then show ?case by simp
next
  case (Cons w ws)
  have nn: "\<forall>x\<in>set (fallback_word v w). 0 \<le> x" using Cons.prems(1) by (rule nonneg_fallback_word)
  have ln: "length (fallback_word v w) = length v" by (rule length_fallback_word)
  have ne: "fallback_word v w \<noteq> []" using ln Cons.prems(2) by auto
  show ?case
  proof (cases "ws = []")
    case True
    have "\<exists>x\<in>set (fallback_word v w). 0 < x"
      using Cons.prems(1,2) by (rule positive_fallback_word)
    then show ?thesis unfolding True foldl.simps using nn ln by (intro conjI)
  next
    case False
    from Cons.IH[OF nn ne False] show ?thesis unfolding foldl.simps ln .
  qed
qed

lemma sum_squares_foldl:
  "foldl (\<lambda>sum val. sum + val * val) a (v :: real list) = a + sum_list (map (\<lambda>val. val * val) v)"
  by (induction v arbitrary: a) simp_all

lemma sum_squares_positive:
  assumes "\<exists>x\<in>set (v :: real list). 0 < x"
  shows "0 < sum_list (map (\<lambda>val. val * val) v)"
  using assms
proof (induction v)
  case Nil
  then show ?case by simp
next
  case (Cons a v)
  have nn: "0 \<le> sum_list (map (\<lambda>val. val * val) v)"
    by (rule sum_list_nonneg) auto
  show ?case
  proof (cases "0 < a")
    case True
    then have "0 < a * a" by simp
    then show ?thesis using nn by simp
  next
    case False
    then have "\<exists>x\<in>set v. 0 < x" using Cons.prems by auto
    then have "0 < sum_list (map (\<lambda>val. val * val) v)" by (rule Cons.IH)
    then show ?thesis by (simp add: add_nonneg_pos)
  qed
qed


lemma fallback_nonzero:
  "length (generateFallbackEmbedding inp) = FALLBACK_DIMENSIONS
   \<and> (\<exists>x\<in>set (generateFallbackEmbedding inp). 0 < x)"
proof -
  define v where "v = foldl fallback_word (replicate FALLBACK_DIMENSIONS 0) (split_ws (toLowerCase inp))"
  have pos_dim: "0 < FALLBACK_DIMENSIONS" by (simp add: FALLBACK_DIMENSIONS_def)
  have base: "\<forall>x\<in>set (replicate FALLBACK_DIMENSIONS (0::real)). 0 \<le> x"
    "replicate FALLBACK_DIMENSIONS (0::real) \<noteq> []"
    using pos_dim by simp_all
  from fallback_fold[OF base split_ws_not_Nil, of "toLowerCase inp"]
  have len: "length v = FALLBACK_DIMENSIONS" and nn: "\<forall>x\<in>set v. 0 \<le> x"
    and pos: "\<exists>x\<in>set v. 0 < x"
    unfolding v_def[symmetric] length_replicate by blast+
  define m where "m = sqrt (foldl (\<lambda>sum val. sum + val * val) 0 v)"
  have m: "0 < m"
    unfolding m_def sum_squares_foldl using sum_squares_positive[OF pos] by simp
  have g: "generateFallbackEmbedding inp = map (\<lambda>val. val / m) v"
    unfolding generateFallbackEmbedding_def Let_def v_def[symmetric] m_def[symmetric]
    using m by simp
  from pos obtain x where x: "x \<in> set v" "0 < x" by blast
  have "x / m \<in> set (map (\<lambda>val. val / m) v)"
    unfolding set_map using x(1) by (rule imageI)
  moreover have "0 < x / m" using x(2) m by simp
  ultimately have "\<exists>y\<in>set (map (\<lambda>val. val / m) v). 0 < y" by (rule rev_bexI)
  then show ?thesis unfolding g using len by simp
qed

lemma fallback_ok:
  "generateFallbackEmbedding inp \<noteq> []
   \<and> \<not> list_all (\<lambda>x. x = 0) (generateFallbackEmbedding inp)"
proof -
  from fallback_nonzero[of inp] obtain x where
    l: "length (generateFallbackEmbedding inp) = FALLBACK_DIMENSIONS" and
    x: "x \<in> set (generateFallbackEmbedding inp)" "0 < x" by blast
  from l have "generateFallbackEmbedding inp \<noteq> []" by (auto simp: FALLBACK_DIMENSIONS_def)
  moreover have "\<not> list_all (\<lambda>x. x = 0) (generateFallbackEmbedding inp)"
  proof -
    have "\<not> (x = 0)" using x(2) by simp
    with x(1) have "\<exists>y\<in>set (generateFallbackEmbedding inp). \<not> (y = 0)" by (rule rev_bexI)
    then show ?thesis unfolding list_all_iff by blast
  qed
  ultimately show ?thesis by simp
qed

text \<open>
  With a configuration that was loaded: for every text and every behaviour of the transport
  (a throw included), \<open>generateEmbedding\<close> returns a vector; the vector is not empty and is
  not the zero vector; and when the transport answers a vector of zeros, the result is the
  fallback embedding of the text. The fallback embedding is never zero, so this holds in
  particular for the texts with an alphanumeric token. (Numbers are reals here; the
  statement is about emptiness and zero entries only.)
\<close>

lemma generateEmbedding_loaded:
  "\<exists>v. generateEmbedding (Inr cfg) callEmbeddingAPI inp = Inr v
       \<and> v \<noteq> []
       \<and> \<not> list_all (\<lambda>x. x = 0) v
       \<and> (\<forall>zs. callEmbeddingAPI (truncatedText inp) cfg = Inr (ApiArray zs)
                 \<and> list_all (\<lambda>x. x = 0) zs
              \<longrightarrow> v = generateFallbackEmbedding inp)"
proof (cases "callEmbeddingAPI (truncatedText inp) cfg")
  case (Inl e)
  then show ?thesis using fallback_ok[of inp] by (simp add: generateEmbedding_def)
next
  case (Inr a)
  show ?thesis
  proof (cases a)
    case ApiNull
    then show ?thesis using Inr fallback_ok[of inp] by (simp add: generateEmbedding_def)
  next
    case ApiNotArray
    then show ?thesis using Inr fallback_ok[of inp] by (simp add: generateEmbedding_def)
  next
    case (ApiArray e)
    then show ?thesis using Inr fallback_ok[of inp]
      by (auto simp: generateEmbedding_def validateEmbeddingNotZero_def)
  qed
qed

lemma generateEmbedding_zero_vector:
  "generateEmbedding (Inr local_config) (\<lambda>t c. Inr (ApiArray [0, 0, 0])) ''search files''
     = Inr (generateFallbackEmbedding ''search files'')
   \<and> generateFallbackEmbedding ''search files'' \<noteq> []
   \<and> \<not> list_all (\<lambda>x. x = 0) (generateFallbackEmbedding ''search files'')"
proof -
  from generateEmbedding_loaded[of local_config "\<lambda>t c. Inr (ApiArray [0, 0, 0])" "''search files''"]
  obtain v where v: "generateEmbedding (Inr local_config) (\<lambda>t c. Inr (ApiArray [0, 0, 0])) ''search files'' = Inr v"
    "v \<noteq> []" "\<not> list_all (\<lambda>x. x = 0) v"
    "\<forall>zs. (\<lambda>t c. Inr (ApiArray [0, 0, 0])) (truncatedText ''search files'') local_config = Inr (ApiArray zs)
                 \<and> list_all (\<lambda>x. x = 0) zs
              \<longrightarrow> v = generateFallbackEmbedding ''search files''"
    by blast
  have "list_all (\<lambda>x. x = 0) [0, 0, 0 :: real]" by simp
  with v(4) have "v = generateFallbackEmbedding ''search files''" by simp
  with v(1,2,3) show ?thesis by simp
qed

text \<open>When the loading of the configuration throws, the function throws that error: the
  \<open>await\<close> of \<open>getOpenAIConfig()\<close> stands before the \<open>try\<close>.\<close>

lemma generateEmbedding_load_error:
  "generateEmbedding (Inl loadError) callEmbeddingAPI inp = Inl loadError"
  by (simp add: generateEmbedding_def)

text \<open>
  Claim C2. The claim (and the documentation of the function, \<open>@throws Never throws\<close>) says
  that \<open>generateEmbedding\<close> never throws. It does: called with the text \<open>test\<close> while the
  loading of the configuration fails, the function throws the error of the loader, whatever
  the transport would have answered; no fallback embedding is returned. (With a loaded
  configuration the rest of the claim holds, lemma \<open>generateEmbedding_loaded\<close>.)
\<close>

theorem generateEmbedding_rejects:
  "generateEmbedding (Inl (ErrorObj ''settings unavailable''))
       (\<lambda>t c. Inr (ApiArray [1])) ''test''
     = Inl (ErrorObj ''settings unavailable'')
   \<and> generateEmbedding (Inl (ErrorObj ''settings unavailable''))
       (\<lambda>t c. Inl (ErrorObj ''connection refused'')) ''test''
     = Inl (ErrorObj ''settings unavailable'')"
  by (simp add: generateEmbedding_def)

text \<open>
  With the generator of the service and a configuration that was loaded, every call of a
  batch gives a non-empty array, so the probe always gives a width; a probe without a
  width needs a call of the generator that fails as a whole, which is the case when the
  loading of the configuration throws during the probe.
\<close>

lemma service_embed_array:
  assumes "loads k = Inr cfg"
  shows "\<exists>v. service_embed loads transports k s = Inr (ApiArray v) \<and> v \<noteq> []"
proof -
  from generateEmbedding_loaded[of cfg "transports k" s] obtain v where
    "generateEmbedding (Inr cfg) (transports k) s = Inr v" "v \<noteq> []" by blast
  then show ?thesis using assms by (simp add: service_embed_def)
qed

lemma service_probe_determined:
  assumes "embed e = service_embed loads transports" and "loads 0 = Inr cfg"
  shows "\<not> probe_undetermined e"
proof -
  from service_embed_array[of loads 0 cfg transports "''test''", OF assms(2)] obtain v where
    "embed e 0 ''test'' = Inr (ApiArray v)" "v \<noteq> []"
    unfolding assms(1) by blast
  then show ?thesis by (simp add: probe_undetermined_def)
qed

lemma service_probe_undetermined:
  assumes "embed e = service_embed loads transports" and "loads 0 = Inl loadError"
  shows "probe_undetermined e"
  unfolding probe_undetermined_def assms(1) service_embed_def
  by (simp add: assms(2) generateEmbedding_load_error)

section \<open>Properties of the result transformer\<close>

lemma get_prop_total:
  assumes "get_prop pm p = Inr x"
  shows "\<exists>y. get_prop pm q = Inr y"
  using assms by (cases pm) simp_all

lemma structured_None_iff: "structured_result r = None \<longleftrightarrow> \<not> metadata_usable r"
proof (cases "row_embedding r")
  case None
  then show ?thesis by (simp add: structured_result_def metadata_usable_def)
next
  case (Some emb)
  show ?thesis
  proof (cases "metadata emb")
    case MetaNotString
    then show ?thesis using Some by (simp add: structured_result_def metadata_usable_def)
  next
    case (MetaString parsed)
    show ?thesis
    proof (cases parsed)
      case None
      then show ?thesis using Some MetaString
        by (simp add: structured_result_def metadata_usable_def)
    next
      case (Some pm)
      note pm = Some
      show ?thesis
      proof (cases "get_prop pm ''serverName''")
        case (Inl e)
        then show ?thesis using \<open>row_embedding r = Some emb\<close> MetaString pm
          by (simp add: structured_result_def metadata_usable_def)
      next
        case (Inr sn)
        from get_prop_total[OF Inr] obtain tn d sch where
          "get_prop pm ''toolName'' = Inr tn" "get_prop pm ''description'' = Inr d"
          "get_prop pm ''inputSchema'' = Inr sch" by metis
        then show ?thesis using Inr \<open>row_embedding r = Some emb\<close> MetaString pm
          by (simp add: structured_result_def metadata_usable_def)
      qed
    qed
  qed
qed

lemma takeWhile_token:
  assumes "\<forall>c\<in>set tok. \<not> is_space c" and "rest = [] \<or> is_space (hd rest)"
  shows "takeWhile (\<lambda>c. \<not> is_space c) (tok @ rest) = tok"
    and "dropWhile (\<lambda>c. \<not> is_space c) (tok @ rest) = rest"
proof -
  have t: "takeWhile (\<lambda>c. \<not> is_space c) rest = []"
    using assms(2) by (cases rest) auto
  have d: "dropWhile (\<lambda>c. \<not> is_space c) rest = rest"
    using assms(2) by (cases rest) auto
  show "takeWhile (\<lambda>c. \<not> is_space c) (tok @ rest) = tok"
    using assms(1) t by simp
  show "dropWhile (\<lambda>c. \<not> is_space c) (tok @ rest) = rest"
    using assms(1) d by simp
qed

lemma trim_dropWhile: "trim (dropWhile is_space s) = trim s"
  by (simp add: trim_def)

lemma extract_toolName_token:
  assumes "\<forall>c\<in>set tok. \<not> is_space c" and "rest = [] \<or> is_space (hd rest)"
  shows "extract_toolName (tok @ rest) = tok"
  unfolding extract_toolName_def using assms by (rule takeWhile_token(1))

lemma extract_description_token:
  assumes "\<forall>c\<in>set tok. \<not> is_space c" and "rest = [] \<or> is_space (hd rest)"
  shows "extract_description (tok @ rest) = trim rest"
proof (cases "tok = []")
  case True
  then show ?thesis
    unfolding extract_description_def takeWhile_token(1)[OF assms] by simp
next
  case False
  then show ?thesis
    unfolding extract_description_def takeWhile_token[OF assms] by (simp add: trim_dropWhile)
qed

lemma extract_serverName_prefix:
  assumes "tok = p @ CHR ''_'' # q" and "p \<noteq> []" and "CHR ''_'' \<notin> set p"
  shows "extract_serverName tok = p"
proof -
  have np: "\<And>x. x \<in> set p \<Longrightarrow> x \<noteq> CHR ''_''" using assms(3) by blast
  have "takeWhile (\<lambda>c. c \<noteq> CHR ''_'') (p @ CHR ''_'' # q)
      = p @ takeWhile (\<lambda>c. c \<noteq> CHR ''_'') (CHR ''_'' # q)"
    by (rule takeWhile_append2) (rule np)
  then have "takeWhile (\<lambda>c. c \<noteq> CHR ''_'') tok = p"
    unfolding assms(1) by simp
  moreover have "dropWhile (\<lambda>c. c \<noteq> CHR ''_'') (p @ CHR ''_'' # q)
      = dropWhile (\<lambda>c. c \<noteq> CHR ''_'') (CHR ''_'' # q)"
    by (rule dropWhile_append2) (rule np)
  then have "dropWhile (\<lambda>c. c \<noteq> CHR ''_'') tok = CHR ''_'' # q"
    unfolding assms(1) by simp
  ultimately show ?thesis using assms(2) by (simp add: extract_serverName_def Let_def)
qed

lemma extract_serverName_unknown:
  assumes "CHR ''_'' \<notin> set tok \<or> (\<exists>q. tok = CHR ''_'' # q)"
  shows "extract_serverName tok = ''unknown''"
  using assms
proof
  assume "CHR ''_'' \<notin> set tok"
  then have "\<And>x. x \<in> set tok \<Longrightarrow> x \<noteq> CHR ''_''" by blast
  then have "dropWhile (\<lambda>c. c \<noteq> CHR ''_'') tok = []" by (rule dropWhile_eq_Nil_conv[THEN iffD2, OF ballI])
  then show ?thesis by (simp add: extract_serverName_def Let_def)
next
  assume "\<exists>q. tok = CHR ''_'' # q"
  then obtain q where "tok = CHR ''_'' # q" ..
  then have "takeWhile (\<lambda>c. c \<noteq> CHR ''_'') tok = []" by simp
  then show ?thesis by (simp add: extract_serverName_def Let_def)
qed

lemma search_unfiltered: "searchToolsByVector (Inr rows) None = Inr (map transform_row rows)"
  by (simp add: searchToolsByVector_def search_body_def apply_server_filter_def)

lemma transform_unusable:
  assumes "\<not> metadata_usable r"
  shows "transform_row r = heuristic_result r"
  using assms structured_None_iff[of r] by (simp add: transform_row_def)

text \<open>
  Claim C8, as amended. A search without a server filter gives one record for every row and
  does not throw. For a row whose metadata is missing, not a string, not parseable, or
  parses to a value without a truthy \<open>serverName\<close> and \<open>toolName\<close>, the record comes from
  \<open>text_content\<close>: the tool name is the run of characters before the first white space
  (empty when the text is empty or starts with white space), the description is the rest
  of the text, trimmed, and the server name is the part of the tool name before its first
  underscore when that part is not empty, and \<open>unknown\<close> when the tool name has no underscore
  or starts with one.
\<close>

theorem heuristic_extraction:
  "searchToolsByVector (Inr rows) None = Inr (map transform_row rows)
   \<and> (\<not> metadata_usable r \<and> textContent_of r = tok @ rest
        \<and> (\<forall>c\<in>set tok. \<not> is_space c) \<and> (rest = [] \<or> is_space (hd rest)) \<longrightarrow>
        res_toolName (transform_row r) = JStr tok
        \<and> res_description (transform_row r) = JStr (trim rest)
        \<and> (\<forall>p q. tok = p @ CHR ''_'' # q \<and> p \<noteq> [] \<and> CHR ''_'' \<notin> set p \<longrightarrow>
              res_serverName (transform_row r) = JStr p)
        \<and> (CHR ''_'' \<notin> set tok \<or> (\<exists>q. tok = CHR ''_'' # q) \<longrightarrow>
              res_serverName (transform_row r) = JStr ''unknown''))"
proof (intro conjI impI)
  show "searchToolsByVector (Inr rows) None = Inr (map transform_row rows)"
    by (rule search_unfiltered)
next
  assume a: "\<not> metadata_usable r \<and> textContent_of r = tok @ rest
        \<and> (\<forall>c\<in>set tok. \<not> is_space c) \<and> (rest = [] \<or> is_space (hd rest))"
  then have u: "\<not> metadata_usable r" and tc: "textContent_of r = tok @ rest"
    and tk: "\<forall>c\<in>set tok. \<not> is_space c" and rs: "rest = [] \<or> is_space (hd rest)"
    by blast+
  have tr: "transform_row r = heuristic_result r" using u by (rule transform_unusable)
  have tn: "extract_toolName (tok @ rest) = tok" using tk rs by (rule extract_toolName_token)
  have ds: "extract_description (tok @ rest) = trim rest"
    using tk rs by (rule extract_description_token)
  show "res_toolName (transform_row r) = JStr tok"
    unfolding tr heuristic_result_def Let_def tc tn by simp
  show "res_description (transform_row r) = JStr (trim rest)"
    unfolding tr heuristic_result_def Let_def tc ds by simp
  show "\<forall>p q. tok = p @ CHR ''_'' # q \<and> p \<noteq> [] \<and> CHR ''_'' \<notin> set p \<longrightarrow>
              res_serverName (transform_row r) = JStr p"
  proof (intro allI impI)
    fix p q assume "tok = p @ CHR ''_'' # q \<and> p \<noteq> [] \<and> CHR ''_'' \<notin> set p"
    then have "extract_serverName tok = p" using extract_serverName_prefix by blast
    then show "res_serverName (transform_row r) = JStr p"
      unfolding tr heuristic_result_def Let_def tc tn by simp
  qed
  show "res_serverName (transform_row r) = JStr ''unknown''"
    if "CHR ''_'' \<notin> set tok \<or> (\<exists>q. tok = CHR ''_'' # q)"
  proof -
    have "extract_serverName tok = ''unknown''" using that by (rule extract_serverName_unknown)
    then show ?thesis unfolding tr heuristic_result_def Let_def tc tn by simp
  qed
qed

lemma trim_sample: "trim '' tool description'' = ''tool description''"
  by code_simp

lemma sample_no_space: "\<forall>c\<in>set ''server1_tool1''. \<not> is_space c"
  by code_simp

lemma sample_no_underscore: "CHR ''_'' \<notin> set ''server1''"
  by code_simp

theorem heuristic_extraction_witness:
  "\<not> metadata_usable row_invalid_json
   \<and> res_toolName (transform_row row_invalid_json) = JStr ''server1_tool1''
   \<and> res_serverName (transform_row row_invalid_json) = JStr ''server1''
   \<and> res_description (transform_row row_invalid_json) = JStr ''tool description''"
proof -
  have u: "\<not> metadata_usable row_invalid_json"
    by (simp add: metadata_usable_def row_invalid_json_def)
  have tc: "textContent_of row_invalid_json = ''server1_tool1'' @ '' tool description''"
    by (simp add: textContent_of_def row_invalid_json_def)
  have rs: "'' tool description'' = [] \<or> is_space (hd '' tool description'')"
    by code_simp
  have hyp: "\<not> metadata_usable row_invalid_json
      \<and> textContent_of row_invalid_json = ''server1_tool1'' @ '' tool description''
      \<and> (\<forall>c\<in>set ''server1_tool1''. \<not> is_space c)
      \<and> ('' tool description'' = [] \<or> is_space (hd '' tool description''))"
    using u tc sample_no_space rs by (intro conjI)
  note h = heuristic_extraction[of "[]" row_invalid_json "''server1_tool1''" "'' tool description''",
      THEN conjunct2, THEN mp, OF hyp]
  have sp: "''server1_tool1'' = ''server1'' @ CHR ''_'' # ''tool1'' \<and> ''server1'' \<noteq> []
      \<and> CHR ''_'' \<notin> set ''server1''"
    using sample_no_underscore by simp
  from h have 1: "res_toolName (transform_row row_invalid_json) = JStr ''server1_tool1''"
    by (rule conjunct1)
  from h have 2: "res_description (transform_row row_invalid_json) = JStr ''tool description''"
    unfolding trim_sample by (elim conjE)
  from h have "\<forall>p q. ''server1_tool1'' = p @ CHR ''_'' # q \<and> p \<noteq> [] \<and> CHR ''_'' \<notin> set p \<longrightarrow>
              res_serverName (transform_row row_invalid_json) = JStr p"
    by (elim conjE)
  then have 3: "res_serverName (transform_row row_invalid_json) = JStr ''server1''"
    using sp by blast
  show ?thesis using u 1 2 3 by (intro conjI)
qed

text \<open>
  The claim as worded gives the prefix before the first underscore whenever the token has
  an underscore. For the token \<open>_tool\<close> that prefix is empty, and the server name is
  \<open>unknown\<close>. And for a text that starts with white space the tool name is empty: the
  first word goes to the description.
\<close>

theorem leading_underscore_counterexample:
  "\<not> metadata_usable row_leading_underscore
   \<and> res_toolName (transform_row row_leading_underscore) = JStr ''_tool''
   \<and> CHR ''_'' \<in> set ''_tool''
   \<and> takeWhile (\<lambda>c. c \<noteq> CHR ''_'') ''_tool'' = []
   \<and> res_serverName (transform_row row_leading_underscore) = JStr ''unknown''
   \<and> \<not> metadata_usable row_leading_space
   \<and> res_toolName (transform_row row_leading_space) = JStr []
   \<and> res_description (transform_row row_leading_space) = JStr ''foo bar''"
  by code_simp

section \<open>Properties of search, listing and removal\<close>

lemma list_row_Inr:
  assumes "metadata_parses r"
  shows "\<exists>v. list_row r = Inr v"
  using assms unfolding list_row_def metadata_parses_def
  by (auto split: option.splits metadata.splits sum.splits prod.splits)

lemma map_rows_total:
  assumes "\<forall>r\<in>set rows. \<exists>v. f r = Inr v"
  shows "map_rows f rows = Inr (map (\<lambda>r. projr (f r)) rows)"
  using assms by (induction rows) (auto split: sum.splits)

lemma server_filter_eq:
  "server_filter ns r =
     (if has_embedding r then Inr (passes_filter ns r)
      else Inl (ErrorObj ''Cannot read properties of undefined''))"
proof (cases "row_embedding r")
  case None
  then show ?thesis by (simp add: server_filter_def has_embedding_def)
next
  case (Some emb)
  show ?thesis
  proof (cases "metadata emb")
    case MetaNotString
    then show ?thesis using Some
      by (simp add: server_filter_def has_embedding_def passes_filter_def named_server_def)
  next
    case (MetaString parsed)
    show ?thesis
    proof (cases parsed)
      case None
      then show ?thesis using Some MetaString
        by (simp add: server_filter_def has_embedding_def passes_filter_def named_server_def)
    next
      case (Some pm)
      show ?thesis
      proof (cases "get_prop pm ''serverName''")
        case (Inl err)
        then show ?thesis using \<open>row_embedding r = Some emb\<close> MetaString Some
          by (simp add: server_filter_def has_embedding_def passes_filter_def named_server_def)
      next
        case (Inr v)
        then show ?thesis using \<open>row_embedding r = Some emb\<close> MetaString Some
          by (cases v)
             (simp_all add: server_filter_def has_embedding_def passes_filter_def named_server_def)
      qed
    qed
  qed
qed

lemma filter_rows_eq:
  "filter_rows (server_filter ns) rows =
     (if list_all has_embedding rows then Inr (filter (passes_filter ns) rows)
      else Inl (ErrorObj ''Cannot read properties of undefined''))"
proof (induction rows)
  case Nil
  then show ?case by simp
next
  case (Cons r rs)
  show ?case
  proof (cases "has_embedding r")
    case False
    then show ?thesis by (simp add: server_filter_eq)
  next
    case True
    then show ?thesis using Cons.IH by (simp add: server_filter_eq)
  qed
qed

lemma passes_filter_parses:
  assumes "passes_filter ns r"
  shows "metadata_parses r"
  using assms unfolding passes_filter_def named_server_def metadata_parses_def
  by (auto split: option.splits metadata.splits)

lemma passes_filter_listed:
  assumes "passes_filter ns r"
  shows "\<exists>s t. list_row r = Inr t \<and> vt_serverName t = JStr s \<and> s \<in> set ns"
proof -
  from assms obtain emb pm s where
    e: "row_embedding r = Some emb" "metadata emb = MetaString (Some pm)"
      "get_prop pm ''serverName'' = Inr (JStr s)" "s \<in> set ns"
    unfolding passes_filter_def named_server_def
    by (auto split: option.splits metadata.splits sum.splits jv.splits)
  from get_prop_total[OF e(3)] obtain tn where tn: "get_prop pm ''toolName'' = Inr tn" by blast
  from get_prop_total[OF e(3)] obtain d where d: "get_prop pm ''description'' = Inr d" by blast
  from get_prop_total[OF e(3)] obtain sch where sch: "get_prop pm ''inputSchema'' = Inr sch" by blast
  have "list_row r = Inr \<lparr>vt_serverName = JStr s, vt_toolName = tn, vt_description = d,
                         vt_inputSchema = sch\<rparr>"
    using e tn d sch by (simp add: list_row_def)
  then show ?thesis using e(4) by simp
qed

lemma passes_filter_structured:
  assumes "passes_filter ns r" and "metadata_usable r"
  shows "\<exists>s. res_serverName (transform_row r) = JStr s \<and> s \<in> set ns"
proof -
  from assms(1) obtain emb pm s where
    e: "row_embedding r = Some emb" "metadata emb = MetaString (Some pm)"
      "get_prop pm ''serverName'' = Inr (JStr s)" "s \<in> set ns"
    unfolding passes_filter_def named_server_def
    by (auto split: option.splits metadata.splits sum.splits jv.splits)
  from get_prop_total[OF e(3)] obtain tn where tn: "get_prop pm ''toolName'' = Inr tn" by blast
  from get_prop_total[OF e(3)] obtain d where d: "get_prop pm ''description'' = Inr d" by blast
  from get_prop_total[OF e(3)] obtain sch where sch: "get_prop pm ''inputSchema'' = Inr sch" by blast
  from assms(2) have u: "truthy (JStr s) \<and> truthy tn"
    using e tn by (simp add: metadata_usable_def)
  have "structured_result r = Some \<lparr>res_serverName = JStr s, res_toolName = tn,
                            res_description = (if truthy d then d else JStr []),
                            res_inputSchema = (if truthy sch then sch else JObj []),
                            res_similarity = row_similarity r,
                            res_searchableText = text_content emb\<rparr>"
    using e tn d sch u by (simp add: structured_result_def)
  then have "res_serverName (transform_row r) = JStr s" by (simp add: transform_row_def)
  then show ?thesis using e(4) by blast
qed

lemma map_rows_Inr:
  "(map_rows f rows = Inr out) \<longleftrightarrow> (map f rows = map Inr out)"
proof (induction rows arbitrary: out)
  case Nil
  then show ?case by auto
next
  case (Cons r rs)
  show ?case
  proof (cases "f r")
    case (Inl err)
    then show ?thesis by (cases out) auto
  next
    case (Inr y)
    show ?thesis
    proof (cases "map_rows f rs")
      case (Inl err)
      have "map f rs \<noteq> map Inr ys" for ys
        using Cons.IH[of ys] Inl by simp
      then show ?thesis using Inr Inl by (cases out) auto
    next
      case r: (Inr ys)
      then have m: "map f rs = map Inr ys" using Cons.IH[of ys] by simp
      show ?thesis using Inr r m by (cases out) (auto simp: inj_map_eq_map[OF inj_Inr])
    qed
  qed
qed

lemma search_filtered:
  assumes "ns \<noteq> []"
  shows "searchToolsByVector (Inr rows) (Some ns) =
     Inr (if list_all has_embedding rows then map transform_row (filter (passes_filter ns) rows)
          else [])"
  using assms
  by (simp add: searchToolsByVector_def search_body_def apply_server_filter_def filter_rows_eq)

lemma list_filtered:
  assumes "ns \<noteq> []" and "getOpenAIConfig le = Inr cfg"
    and "0 \<le> dimensionsToUse cfg (dimensionRows le)"
    and "dimensionsToUse cfg (dimensionRows le) \<le> 4294967295"
    and "searchSimilar le (nat (dimensionsToUse cfg (dimensionRows le))) = Inr rows"
  shows "\<exists>out. getAllVectorizedTools le (Some ns) = Inr out
       \<and> map Inr out = (if list_all has_embedding rows
                        then map list_row (filter (passes_filter ns) rows) else [])"
proof (cases "list_all has_embedding rows")
  case False
  have "list_body le (Some ns) = Inl (ErrorObj ''Cannot read properties of undefined'')"
    unfolding list_body_def Let_def using assms False
    by (simp add: apply_server_filter_def filter_rows_eq)
  then have "getAllVectorizedTools le (Some ns) = Inr []"
    by (simp add: getAllVectorizedTools_def)
  then show ?thesis using False by simp
next
  case True
  have b: "list_body le (Some ns) = map_rows list_row (filter (passes_filter ns) rows)"
    unfolding list_body_def Let_def using assms True
    by (simp add: apply_server_filter_def filter_rows_eq)
  have "\<forall>r\<in>set (filter (passes_filter ns) rows). \<exists>v. list_row r = Inr v"
    using passes_filter_listed by auto
  then have m: "map_rows list_row (filter (passes_filter ns) rows)
      = Inr (map (\<lambda>r. projr (list_row r)) (filter (passes_filter ns) rows))"
    by (rule map_rows_total)
  define out where "out = map (\<lambda>r. projr (list_row r)) (filter (passes_filter ns) rows)"
  have g: "getAllVectorizedTools le (Some ns) = Inr out"
    unfolding getAllVectorizedTools_def b m out_def by simp
  have "map list_row (filter (passes_filter ns) rows) = map Inr out"
    using m unfolding out_def[symmetric] by (simp add: map_rows_Inr)
  then show ?thesis using g True by simp
qed

lemma search_no_filter:
  "searchToolsByVector (Inr rows) None = Inr (map transform_row rows)"
  "searchToolsByVector (Inr rows) (Some []) = Inr (map transform_row rows)"
  by (simp_all add: searchToolsByVector_def search_body_def apply_server_filter_def)

text \<open>
  Claim C10, as amended. With a non-empty list of server names, the records that
  \<open>searchToolsByVector\<close> and \<open>getAllVectorizedTools\<close> return are built from exactly the rows
  that pass the list, in their order: the rows whose metadata is a string that parses to a
  value whose \<open>serverName\<close> is one of the names (and from no row at all when a row has no
  embedding: the error is recovered as the empty list). So a row whose metadata is not a
  string or does not parse never passes and is left out altogether; every tool listed
  carries one of the names as its server name, and so does every record of a search that
  is built from the metadata. The extraction from \<open>text_content\<close> is not confined to calls
  without a list: in a search it is applied to every row whose metadata is not usable,
  also to a row that passed the list because its metadata parses and gives one of the names
  but no tool name. Without a list (none, or an empty one) every row gives a record.
\<close>

theorem filtered_rows_parse:
  "(ns \<noteq> [] \<longrightarrow>
      searchToolsByVector (Inr rows) (Some ns) =
        Inr (if list_all has_embedding rows
             then map transform_row (filter (passes_filter ns) rows) else []))
   \<and> (ns \<noteq> [] \<and> getOpenAIConfig le = Inr cfg
        \<and> 0 \<le> dimensionsToUse cfg (dimensionRows le)
        \<and> dimensionsToUse cfg (dimensionRows le) \<le> 4294967295
        \<and> searchSimilar le (nat (dimensionsToUse cfg (dimensionRows le))) = Inr rows
      \<longrightarrow> (\<exists>out. getAllVectorizedTools le (Some ns) = Inr out
             \<and> map Inr out = (if list_all has_embedding rows
                              then map list_row (filter (passes_filter ns) rows) else [])))
   \<and> (\<not> metadata_parses r \<longrightarrow> \<not> passes_filter ns r)
   \<and> (passes_filter ns r \<longrightarrow>
        (\<exists>s t. list_row r = Inr t \<and> vt_serverName t = JStr s \<and> s \<in> set ns))
   \<and> (passes_filter ns r \<and> metadata_usable r \<longrightarrow>
        (\<exists>s. res_serverName (transform_row r) = JStr s \<and> s \<in> set ns))
   \<and> (\<not> metadata_usable r \<longrightarrow> transform_row r = heuristic_result r)
   \<and> searchToolsByVector (Inr rows) None = Inr (map transform_row rows)
   \<and> searchToolsByVector (Inr rows) (Some []) = Inr (map transform_row rows)"
proof (intro conjI impI)
  show "searchToolsByVector (Inr rows) (Some ns) =
        Inr (if list_all has_embedding rows
             then map transform_row (filter (passes_filter ns) rows) else [])"
    if "ns \<noteq> []" using that by (rule search_filtered)
  show "\<exists>out. getAllVectorizedTools le (Some ns) = Inr out
             \<and> map Inr out = (if list_all has_embedding rows
                              then map list_row (filter (passes_filter ns) rows) else [])"
    if "ns \<noteq> [] \<and> getOpenAIConfig le = Inr cfg
        \<and> 0 \<le> dimensionsToUse cfg (dimensionRows le)
        \<and> dimensionsToUse cfg (dimensionRows le) \<le> 4294967295
        \<and> searchSimilar le (nat (dimensionsToUse cfg (dimensionRows le))) = Inr rows"
  proof -
    from that have a: "ns \<noteq> []" "getOpenAIConfig le = Inr cfg"
      "0 \<le> dimensionsToUse cfg (dimensionRows le)"
      "dimensionsToUse cfg (dimensionRows le) \<le> 4294967295"
      "searchSimilar le (nat (dimensionsToUse cfg (dimensionRows le))) = Inr rows"
      by blast+
    show ?thesis by (rule list_filtered[OF a])
  qed
  show "\<not> passes_filter ns r" if "\<not> metadata_parses r"
    using that passes_filter_parses by blast
  show "\<exists>s t. list_row r = Inr t \<and> vt_serverName t = JStr s \<and> s \<in> set ns"
    if "passes_filter ns r" using that by (rule passes_filter_listed)
  show "\<exists>s. res_serverName (transform_row r) = JStr s \<and> s \<in> set ns"
    if "passes_filter ns r \<and> metadata_usable r"
    using that passes_filter_structured by blast
  show "transform_row r = heuristic_result r" if "\<not> metadata_usable r"
    using that by (rule transform_unusable)
  show "searchToolsByVector (Inr rows) None = Inr (map transform_row rows)"
    by (rule search_no_filter)
  show "searchToolsByVector (Inr rows) (Some []) = Inr (map transform_row rows)"
    by (rule search_no_filter)
qed

lemma sample_rows_filtered:
  "list_all has_embedding [row_server_a, row_invalid_json, row_server_only]"
  "filter (passes_filter [''a'']) [row_server_a, row_invalid_json, row_server_only]
     = [row_server_a, row_server_only]"
  by (simp_all add: has_embedding_def passes_filter_def named_server_def row_server_a_def
      row_invalid_json_def row_server_only_def)

lemma sample_rows_unusable:
  "\<not> metadata_parses row_invalid_json" "metadata_parses row_server_only"
  "\<not> metadata_usable row_server_only"
  by (simp_all add: metadata_parses_def metadata_usable_def row_invalid_json_def
      row_server_only_def)

lemma sample_rows_listed:
  "list_row row_server_a
     = Inr \<lparr>vt_serverName = JStr ''a'', vt_toolName = JStr ''tool1'',
            vt_description = JUndefined, vt_inputSchema = JUndefined\<rparr>"
  "list_row row_server_only
     = Inr \<lparr>vt_serverName = JStr ''a'', vt_toolName = JUndefined,
            vt_description = JUndefined, vt_inputSchema = JUndefined\<rparr>"
  by (simp_all add: list_row_def row_server_a_def row_server_only_def)

lemma list_env_sample_fields:
  "getOpenAIConfig list_env_sample = Inr local_config"
  "dimensionsToUse local_config (dimensionRows list_env_sample) = 1024"
  "searchSimilar list_env_sample n = Inr [row_server_a, row_invalid_json, row_server_only]"
  by (simp_all add: list_env_sample_def dimensionsToUse_def Let_def)

theorem filtered_rows_parse_witness:
  "\<not> metadata_parses row_invalid_json
   \<and> searchToolsByVector (Inr [row_server_a, row_invalid_json, row_server_only]) (Some [''a''])
       = Inr [transform_row row_server_a, heuristic_result row_server_only]
   \<and> getAllVectorizedTools list_env_sample (Some [''a''])
       = Inr [\<lparr>vt_serverName = JStr ''a'', vt_toolName = JStr ''tool1'',
                vt_description = JUndefined, vt_inputSchema = JUndefined\<rparr>,
              \<lparr>vt_serverName = JStr ''a'', vt_toolName = JUndefined,
                vt_description = JUndefined, vt_inputSchema = JUndefined\<rparr>]"
proof -
  have ne: "[''a''] \<noteq> ([] :: string list)" by simp
  note t = filtered_rows_parse[of "[''a'']" "[row_server_a, row_invalid_json, row_server_only]"
      list_env_sample local_config row_server_only]
  from t[THEN conjunct1, THEN mp, OF ne]
  have s: "searchToolsByVector (Inr [row_server_a, row_invalid_json, row_server_only]) (Some [''a''])
       = Inr [transform_row row_server_a, transform_row row_server_only]"
    unfolding if_P[OF sample_rows_filtered(1)] sample_rows_filtered(2) by simp
  from t[THEN conjunct2, THEN conjunct2, THEN conjunct2, THEN conjunct2, THEN conjunct2,
      THEN conjunct1, THEN mp, OF sample_rows_unusable(3)]
  have h: "transform_row row_server_only = heuristic_result row_server_only" .
  have hl: "[''a''] \<noteq> [] \<and> getOpenAIConfig list_env_sample = Inr local_config
        \<and> 0 \<le> dimensionsToUse local_config (dimensionRows list_env_sample)
        \<and> dimensionsToUse local_config (dimensionRows list_env_sample) \<le> 4294967295
        \<and> searchSimilar list_env_sample
             (nat (dimensionsToUse local_config (dimensionRows list_env_sample)))
            = Inr [row_server_a, row_invalid_json, row_server_only]"
    by (simp add: list_env_sample_fields)
  from t[THEN conjunct2, THEN conjunct1, THEN mp, OF hl] obtain out where
    o: "getAllVectorizedTools list_env_sample (Some [''a'']) = Inr out"
      "map Inr out = (if list_all has_embedding [row_server_a, row_invalid_json, row_server_only]
                      then map list_row (filter (passes_filter [''a''])
                                           [row_server_a, row_invalid_json, row_server_only])
                      else [])"
    by blast
  from o(2) have "out = [\<lparr>vt_serverName = JStr ''a'', vt_toolName = JStr ''tool1'',
                vt_description = JUndefined, vt_inputSchema = JUndefined\<rparr>,
              \<lparr>vt_serverName = JStr ''a'', vt_toolName = JUndefined,
                vt_description = JUndefined, vt_inputSchema = JUndefined\<rparr>]"
    unfolding if_P[OF sample_rows_filtered(1)] sample_rows_filtered(2)
    by (auto simp: sample_rows_listed map_eq_Cons_conv)
  with o(1) have l: "getAllVectorizedTools list_env_sample (Some [''a''])
       = Inr [\<lparr>vt_serverName = JStr ''a'', vt_toolName = JStr ''tool1'',
                vt_description = JUndefined, vt_inputSchema = JUndefined\<rparr>,
              \<lparr>vt_serverName = JStr ''a'', vt_toolName = JUndefined,
                vt_description = JUndefined, vt_inputSchema = JUndefined\<rparr>]" by simp
  show ?thesis using sample_rows_unusable(1) s[unfolded h] l by (intro conjI)
qed

text \<open>
  The claim as worded says that the extraction from \<open>text_content\<close> is applied only when no
  list of server names is given. In a search for the servers \<open>a\<close>, a row whose metadata
  parses and names the server \<open>a\<close> but no tool passes the list, and its record is the one
  extracted from \<open>text_content\<close>: the tool name is the first word of the text and the server
  name is \<open>unknown\<close>.
\<close>

theorem heuristic_under_filter_counterexample:
  "metadata_parses row_server_only
   \<and> searchToolsByVector (Inr [row_server_only]) (Some [''a''])
       = Inr [heuristic_result row_server_only]
   \<and> res_toolName (heuristic_result row_server_only) = JStr ''tool9''
   \<and> res_serverName (heuristic_result row_server_only) = JStr ''unknown''"
proof -
  have f: "list_all has_embedding [row_server_only]"
    "filter (passes_filter [''a'']) [row_server_only] = [row_server_only]"
    by (simp_all add: has_embedding_def passes_filter_def named_server_def row_server_only_def)
  have ne: "[''a''] \<noteq> ([] :: string list)" by simp
  have s: "searchToolsByVector (Inr [row_server_only]) (Some [''a''])
       = Inr [transform_row row_server_only]"
    unfolding search_filtered[OF ne] if_P[OF f(1)] f(2) by simp
  have h: "transform_row row_server_only = heuristic_result row_server_only"
    using sample_rows_unusable(3) by (rule transform_unusable)
  have tc: "textContent_of row_server_only = ''tool9 ninth tool''"
    by (simp add: textContent_of_def row_server_only_def)
  have tn: "extract_toolName ''tool9 ninth tool'' = ''tool9''"
    by (simp add: extract_toolName_def is_space_def)
  have sn: "extract_serverName ''tool9'' = ''unknown''"
    by (simp add: extract_serverName_def)
  have r: "res_toolName (heuristic_result row_server_only) = JStr ''tool9''"
    "res_serverName (heuristic_result row_server_only) = JStr ''unknown''"
    by (simp_all add: heuristic_result_def Let_def tc tn sn)
  show ?thesis using sample_rows_unusable(2) s[unfolded h] r by (intro conjI)
qed

text \<open>
  Claim C9. \<open>searchToolsByVector\<close> and \<open>getAllVectorizedTools\<close> always return a list and
  \<open>removeServerToolEmbeddings\<close> always returns; when an error is thrown inside (by the
  repository, by the configuration, by a row without an embedding, ...) the list is empty.
\<close>

theorem never_raise:
  "(\<exists>found. searchToolsByVector searchByText serverNames = Inr found
       \<and> ((\<exists>error. search_body searchByText serverNames = Inl error) \<longrightarrow> found = []))
   \<and> (\<exists>found. getAllVectorizedTools le serverNames = Inr found
       \<and> ((\<exists>error. list_body le serverNames = Inl error) \<longrightarrow> found = []))
   \<and> fst (removeServerToolEmbeddings re serverName evs) = Inr ()"
proof (intro conjI)
  show "\<exists>found. searchToolsByVector searchByText serverNames = Inr found
       \<and> ((\<exists>error. search_body searchByText serverNames = Inl error) \<longrightarrow> found = [])"
    by (cases "search_body searchByText serverNames") (simp_all add: searchToolsByVector_def)
  show "\<exists>found. getAllVectorizedTools le serverNames = Inr found
       \<and> ((\<exists>error. list_body le serverNames = Inl error) \<longrightarrow> found = [])"
    by (cases "list_body le serverNames") (simp_all add: getAllVectorizedTools_def)
  show "fst (removeServerToolEmbeddings re serverName evs) = Inr ()"
    by (cases "remove_body re serverName evs"; cases "fst (remove_body re serverName evs)")
       (simp_all add: removeServerToolEmbeddings_def)
qed


theorem never_raise_witness:
  "search_body (Inl (ErrorObj ''Search failed'')) None = Inl (ErrorObj ''Search failed'')
   \<and> searchToolsByVector (Inl (ErrorObj ''Search failed'')) None = Inr []
   \<and> search_body (Inr [row_no_embedding]) (Some [''a''])
       = Inl (ErrorObj ''Cannot read properties of undefined'')
   \<and> searchToolsByVector (Inr [row_no_embedding]) (Some [''a'']) = Inr []
   \<and> list_body failing_list_env None = Inl (ErrorObj ''Search failed'')
   \<and> getAllVectorizedTools failing_list_env None = Inr []
   \<and> fst (remove_body failing_remove_env ''s'' []) = Inl (ErrorObj ''Delete failed'')
   \<and> fst (removeServerToolEmbeddings failing_remove_env ''s'' []) = Inr ()"
proof -
  have b1: "search_body (Inl (ErrorObj ''Search failed'')) None = Inl (ErrorObj ''Search failed'')"
    by (simp add: search_body_def)
  have b2: "search_body (Inr [row_no_embedding]) (Some [''a''])
       = Inl (ErrorObj ''Cannot read properties of undefined'')"
    by (simp add: search_body_def apply_server_filter_def server_filter_def row_no_embedding_def)
  have b3: "list_body failing_list_env None = Inl (ErrorObj ''Search failed'')"
    by (simp add: list_body_def failing_list_env_def dimensionsToUse_def Let_def)
  have b4: "fst (remove_body failing_remove_env ''s'' []) = Inl (ErrorObj ''Delete failed'')"
    by (simp add: remove_body_def failing_remove_env_def)
  note t1 = never_raise[of "Inl (ErrorObj ''Search failed'')" None failing_list_env
      failing_remove_env "''s''" "[]"]
  note t2 = never_raise[of "Inr [row_no_embedding]" "Some [''a'']" failing_list_env
      failing_remove_env "''s''" "[]"]
  from t1[THEN conjunct1] b1
  have r1: "searchToolsByVector (Inl (ErrorObj ''Search failed'')) None = Inr []" by blast
  from t2[THEN conjunct1] b2
  have r2: "searchToolsByVector (Inr [row_no_embedding]) (Some [''a'']) = Inr []" by blast
  from t1[THEN conjunct2, THEN conjunct1] b3
  have r3: "getAllVectorizedTools failing_list_env None = Inr []" by blast
  from t1[THEN conjunct2, THEN conjunct2]
  have r4: "fst (removeServerToolEmbeddings failing_remove_env ''s'' []) = Inr ()" .
  show ?thesis using b1 r1 b2 r2 b3 r3 b4 r4 by (intro conjI)
qed

section \<open>Properties of the reconciliation and of a save batch\<close>

subsection \<open>One statement\<close>

lemma query_fst: "fst (query ds q st) = (case ds q of Some err \<Rightarrow> Inl err | None \<Rightarrow> Inr ())"
  by (simp add: query_def Let_def split: option.split)

lemma apply_sql_log: "db_log (apply_sql q st) = db_log st"
  by (cases q) simp_all

lemma query_log: "db_log (snd (query ds q st)) = db_log st @ [Query q]"
  by (simp add: query_def Let_def apply_sql_log split: option.split)





subsection \<open>createVectorIndex\<close>

lemma query_eq_iff:
  "query ds q st = (r, s) \<longleftrightarrow>
     r = (case ds q of Some err \<Rightarrow> Inl err | None \<Rightarrow> Inr ()) \<and> s = snd (query ds q st)"
  using query_fst[of ds q st] by (cases "query ds q st") auto

lemma createVectorIndex_snd:
  "snd (createVectorIndex ds dims t c st) =
     (let n = conventional_index t c;
          st1 = snd (query ds (DropIndex n) st)
      in if dims \<le> 2000 then
           (if ds (CreateHnsw n t c) = None then snd (query ds (CreateHnsw n t c) st1)
            else snd (query ds (CreateIvfflat n t c) (snd (query ds (CreateHnsw n t c) st1))))
         else if dims \<le> 4000 then snd (query ds (CreateHalfvec n t c dims) st1)
         else st1)"
  unfolding createVectorIndex_def conventional_index_def Let_def
    VECTOR_MAX_DIMENSIONS_def HALFVEC_MAX_DIMENSIONS_def
  by (simp add: query_eq_iff split: prod.split sum.split option.split)

lemma createVectorIndex_log:
  "\<exists>creates. db_log (snd (createVectorIndex ds dims t c st))
      = db_log st @ Query (DropIndex (conventional_index t c)) # creates
    \<and> list_all is_create creates"
  unfolding createVectorIndex_snd Let_def
  by (simp add: query_log)




subsection \<open>Growth of the log\<close>

lemma grows_refl: "grows_without_save st st"
  by (simp add: grows_without_save_def)

lemma grows_trans:
  assumes "grows_without_save a b" and "grows_without_save b c"
  shows "grows_without_save a c"
proof -
  from assms obtain e1 e2 where
    1: "db_log b = db_log a @ e1" "\<not> list_ex is_save e1" and
    2: "db_log c = db_log b @ e2" "\<not> list_ex is_save e2"
    unfolding grows_without_save_def by blast
  have "db_log c = db_log a @ (e1 @ e2)" using 1(1) 2(1) by simp
  moreover have "\<not> list_ex is_save (e1 @ e2)" using 1(2) 2(2) by (auto simp: list_ex_iff)
  ultimately show ?thesis unfolding grows_without_save_def by blast
qed

lemma grows_query: "grows_without_save st (snd (query ds q st))"
  unfolding grows_without_save_def by (rule exI[of _ "[Query q]"]) (simp add: query_log)

lemma grows_initDb: "grows_without_save st (snd (initDb e st))"
  unfolding grows_without_save_def
  by (rule exI[of _ "[InitDb]"]) (simp add: initDb_def Let_def split: option.split)

lemma grows_createVectorIndex: "grows_without_save st (snd (createVectorIndex ds dims t c st))"
proof -
  from createVectorIndex_log[of ds dims t c st] obtain creates where
    c: "db_log (snd (createVectorIndex ds dims t c st))
      = db_log st @ Query (DropIndex (conventional_index t c)) # creates"
    by blast
  have "\<not> list_ex is_save (Query (DropIndex (conventional_index t c)) # creates)"
  proof -
    from createVectorIndex_log[of ds dims t c st] c have "list_all is_create creates" by auto
    then have "\<forall>ev\<in>set creates. \<not> is_save ev"
      unfolding list_all_iff
    proof (intro ballI)
      fix ev assume a: "\<forall>x\<in>set creates. is_create x" "ev \<in> set creates"
      then have "is_create ev" by blast
      then show "\<not> is_save ev" by (cases ev) simp_all
    qed
    then show ?thesis by (simp add: list_ex_iff)
  qed
  with c show ?thesis unfolding grows_without_save_def by blast
qed

lemma grows_then_query:
  assumes "grows_without_save a b"
  shows "grows_without_save a (snd (query ds q b))"
  using assms grows_query by (rule grows_trans)

lemma grows_then_index:
  assumes "grows_without_save a b"
  shows "grows_without_save a (snd (createVectorIndex ds dims t c b))"
  using assms grows_createVectorIndex by (rule grows_trans)

subsection \<open>The phases of the reconciliation\<close>

lemma introspect_eq:
  "introspect e st0 =
     (let s2 = snd (query (dataSource e) SelectAttTypMod (snd (query (dataSource e) SelectTypeInfo st0)))
      in case dataSource e SelectAttTypMod of
           Some err \<Rightarrow> (Inl err, s2)
         | None \<Rightarrow> (Inr (), snd (query (dataSource e) SelectRecordDims s2)))"
  unfolding introspect_def Let_def
  by (simp add: query_eq_iff split: prod.split sum.split option.split)



lemma migrate_eq:
  "migrate e n st3 =
     (let s4 = snd (query (dataSource e) (DeleteMismatched n) st3);
          s5 = snd (query (dataSource e) (AlterColumn n) s4)
      in case dataSource e (DeleteMismatched n) of
           Some err \<Rightarrow> (Inl err, s4)
         | None \<Rightarrow>
             (case dataSource e (AlterColumn n) of
                Some err \<Rightarrow> (Inl err, s5)
              | None \<Rightarrow>
                  (Inr (), snd (createVectorIndex (dataSource e) n
                                  ''vector_embeddings'' ''embedding'' s5))))"
  unfolding migrate_def clearMismatchedVectorData_def Let_def
  by (simp add: query_eq_iff split: prod.split sum.split option.split)

lemma initialize_column_eq:
  "initialize_column e n st3 =
     (let s5 = snd (query (dataSource e) (AlterColumn n) st3)
      in case dataSource e (AlterColumn n) of
           Some err \<Rightarrow> (Inl err, s5)
         | None \<Rightarrow>
             (Inr (), snd (createVectorIndex (dataSource e) n
                             ''vector_embeddings'' ''embedding'' s5)))"
  unfolding initialize_column_def Let_def
  by (simp add: query_eq_iff split: prod.split sum.split option.split)

lemma grows_introspect: "grows_without_save st0 (snd (introspect e st0))"
  unfolding introspect_eq Let_def
  by (auto split: option.split intro!: grows_then_query grows_refl)

lemma grows_migrate: "grows_without_save st3 (snd (migrate e n st3))"
  unfolding migrate_eq Let_def
  by (auto split: option.split intro!: grows_then_query grows_then_index grows_refl)

lemma grows_initialize_column: "grows_without_save st3 (snd (initialize_column e n st3))"
  unfolding initialize_column_eq Let_def
  by (auto split: option.split intro!: grows_then_query grows_then_index grows_refl)



subsection \<open>checkDatabaseVectorDimensions\<close>

lemma initDb_eq:
  "initDb e st =
     (case initializeDatabase e of Some err \<Rightarrow> Inl err | None \<Rightarrow> Inr (),
      st\<lparr>db_log := db_log st @ [InitDb]\<rparr>)"
  by (simp add: initDb_def Let_def split: option.split)

lemma introspect_fst:
  "fst (introspect e st0) = (case dataSource e SelectAttTypMod of Some err \<Rightarrow> Inl err | None \<Rightarrow> Inr ())"
  unfolding introspect_eq Let_def by (simp split: option.split)

lemma check_body_snd_fst:
  "checkDatabaseVectorDimensions e n st =
     (case fst (check_body e n st) of
        Inl error \<Rightarrow> Inl (ErrorObj (''Vector dimension check failed: '' @ message_or_unknown error))
      | Inr u \<Rightarrow> Inr (),
      snd (check_body e n st))"
  unfolding checkDatabaseVectorDimensions_def
  by (cases "check_body e n st"; cases "fst (check_body e n st)") auto

lemma check_body_from:
  assumes "0 < n" and "(if isInitialized e then (Inr (), st) else initDb e st) = (Inr (), st0)"
  shows "check_body e n st =
     (case dataSource e SelectAttTypMod of
        Some err \<Rightarrow> (Inl err, snd (introspect e st0))
      | None \<Rightarrow>
          (if 0 < detectedDimensions e \<and> detectedDimensions e \<noteq> n
             then migrate e n (snd (introspect e st0))
           else if detectedDimensions e = 0 then initialize_column e n (snd (introspect e st0))
           else (Inr (), snd (introspect e st0))))"
proof (cases "dataSource e SelectAttTypMod")
  case None
  then have "fst (introspect e st0) = Inr ()" by (simp add: introspect_fst)
  then obtain s3 where j: "introspect e st0 = (Inr (), s3)" by (cases "introspect e st0") auto
  show ?thesis
    unfolding check_body_def using assms None by (simp add: j Let_def)
next
  case (Some err)
  then have "fst (introspect e st0) = Inl err" by (simp add: introspect_fst)
  then obtain s3 where j: "introspect e st0 = (Inl err, s3)" by (cases "introspect e st0") auto
  show ?thesis
    unfolding check_body_def using assms Some by (simp add: j)
qed

lemma start_ok:
  assumes "isInitialized e \<or> initializeDatabase e = None"
  shows "(if isInitialized e then (Inr (), st) else initDb e st)
     = (Inr (), if isInitialized e then st else snd (initDb e st))"
  using assms by (auto simp: initDb_eq)

lemma check_body_reaches:
  assumes "0 < n" and "isInitialized e \<or> initializeDatabase e = None"
    and "dataSource e SelectAttTypMod = None"
  shows "check_body e n st =
     (let st3 = snd (introspect e (if isInitialized e then st else snd (initDb e st)))
      in if 0 < detectedDimensions e \<and> detectedDimensions e \<noteq> n then migrate e n st3
         else if detectedDimensions e = 0 then initialize_column e n st3
         else (Inr (), st3))"
  unfolding check_body_from[OF assms(1) start_ok[OF assms(2)]] Let_def assms(3)
  by simp


lemma grows_start: "grows_without_save st (if isInitialized e then st else snd (initDb e st))"
  by (simp add: grows_refl grows_initDb)

lemma grows_check_body: "grows_without_save st (snd (check_body e n st))"
proof (cases "0 < n")
  case n: False
  then show ?thesis by (simp add: check_body_def grows_refl)
next
  case n: True
  show ?thesis
  proof (cases "isInitialized e \<or> initializeDatabase e = None")
    case i: False
    then obtain err where "\<not> isInitialized e" "initializeDatabase e = Some err" by auto
    then have "check_body e n st = (Inl err, snd (initDb e st))"
      using n by (simp add: check_body_def initDb_eq)
    then show ?thesis by (simp add: grows_initDb)
  next
    case i: True
    define st3 where "st3 = snd (introspect e (if isInitialized e then st else snd (initDb e st)))"
    have g3: "grows_without_save st st3"
      unfolding st3_def using grows_start grows_introspect by (rule grows_trans)
    have gm: "grows_without_save st (snd (migrate e n st3))"
      using g3 grows_migrate by (rule grows_trans)
    have gi: "grows_without_save st (snd (initialize_column e n st3))"
      using g3 grows_initialize_column by (rule grows_trans)
    show ?thesis
      unfolding check_body_from[OF n start_ok[OF i]] st3_def[symmetric]
      using g3 gm gi by (simp split: option.split)
  qed
qed

lemma grows_check: "grows_without_save st (snd (checkDatabaseVectorDimensions e n st))"
  unfolding check_body_snd_fst using grows_check_body by simp




subsection \<open>The loop over the tools\<close>


lemma save_loop_keeps:
  "db_records (snd (snd (save_loop e sn w k ts (s, f, st)))) = db_records st"
  "db_declared (snd (snd (save_loop e sn w k ts (s, f, st)))) = db_declared st"
proof -
  have "db_records (snd (snd (save_loop e sn w k ts (s, f, st)))) = db_records st
    \<and> db_declared (snd (snd (save_loop e sn w k ts (s, f, st)))) = db_declared st"
  proof (induction ts arbitrary: k s f st)
    case Nil
    then show ?case by simp
  next
    case (Cons t ts)
    show ?case
    proof (cases "embed e k (searchableText t)")
      case (Inl err)
      then show ?thesis using Cons.IH by (simp add: Let_def)
    next
      case (Inr a)
      show ?thesis
      proof (cases a)
        case ApiNull
        then show ?thesis using Inr Cons.IH by (simp add: Let_def)
      next
        case ApiNotArray
        then show ?thesis using Inr Cons.IH by (simp add: Let_def)
      next
        case (ApiArray v)
        show ?thesis
        proof (cases "v \<noteq> [] \<and> length v = w")
          case False
          then show ?thesis using Inr ApiArray Cons.IH by (auto simp: Let_def)
        next
          case True
          then show ?thesis using Inr ApiArray Cons.IH
            by (cases "saveEmbedding e k (sn @ '':'' @ tool_name t)") (simp_all add: Let_def)
        qed
      qed
    qed
  qed
  then show "db_records (snd (snd (save_loop e sn w k ts (s, f, st)))) = db_records st"
    "db_declared (snd (snd (save_loop e sn w k ts (s, f, st)))) = db_declared st"
    by simp_all
qed




subsection \<open>The batch\<close>


lemma save_snd: "snd (saveToolsAsVectorEmbeddings e sn tools st) = snd (save_body e sn tools st)"
  unfolding saveToolsAsVectorEmbeddings_def
  by (cases "save_body e sn tools st"; cases "fst (save_body e sn tools st)") auto

lemma probe_Inr:
  "(\<exists>w. probe e = Inr w) \<longleftrightarrow> \<not> probe_undetermined e"
  unfolding probe_def probe_undetermined_def
  by (auto split: sum.splits api_value.splits)

lemma probe_positive: "probe e = Inr w \<Longrightarrow> 0 < w"
  unfolding probe_def by (auto split: sum.splits api_value.splits if_splits)

lemma save_body_runs:
  assumes "tools \<noteq> []" and "smartRoutingEnabled e"
    and "isDatabaseConnected e \<or> initializeDatabase e = None"
  shows "save_body e sn tools st =
     (let st0 = (if isDatabaseConnected e then st else snd (initDb e st)) in
      case probe e of
        Inl err \<Rightarrow> (Inl err, st0)
      | Inr w \<Rightarrow>
          (case fst (checkDatabaseVectorDimensions e (int w) st0) of
             Inl err \<Rightarrow> (Inl err, snd (checkDatabaseVectorDimensions e (int w) st0))
           | Inr u \<Rightarrow>
               (Inr (), snd (snd (save_loop e sn w 1 tools
                   (0, 0, snd (checkDatabaseVectorDimensions e (int w) st0)))))))"
proof -
  define st0 where "st0 = (if isDatabaseConnected e then st else snd (initDb e st))"
  have i: "(if \<not> isDatabaseConnected e then initDb e st else (Inr (), st)) = (Inr (), st0)"
    using assms(3) by (auto simp: initDb_eq st0_def)
  show ?thesis
  proof (cases "probe e")
    case (Inl err)
    then show ?thesis
      unfolding save_body_def st0_def[symmetric] Let_def using assms(1,2) by (simp add: i)
  next
    case (Inr w)
    obtain r s1 where c: "checkDatabaseVectorDimensions e (int w) st0 = (r, s1)"
      by (cases "checkDatabaseVectorDimensions e (int w) st0")
    show ?thesis
      unfolding save_body_def st0_def[symmetric] Let_def using assms(1,2) Inr
      by (cases r) (simp_all add: i c)
  qed
qed


lemma check_fst:
  assumes "0 < n" and "isInitialized e \<or> initializeDatabase e = None"
    and "dataSource e SelectAttTypMod = None"
  shows "fst (checkDatabaseVectorDimensions e n st) =
     (if 0 < detectedDimensions e \<and> detectedDimensions e \<noteq> n then
        (case dataSource e (DeleteMismatched n) of
           Some err \<Rightarrow> Inl (check_failed err)
         | None \<Rightarrow>
             (case dataSource e (AlterColumn n) of
                Some err \<Rightarrow> Inl (check_failed err)
              | None \<Rightarrow> Inr ()))
      else if detectedDimensions e = 0 then
        (case dataSource e (AlterColumn n) of
           Some err \<Rightarrow> Inl (check_failed err)
         | None \<Rightarrow> Inr ())
      else Inr ())"
proof -
  have m: "fst (migrate e n s3) =
      (case dataSource e (DeleteMismatched n) of
           Some err \<Rightarrow> Inl err
         | None \<Rightarrow> (case dataSource e (AlterColumn n) of Some err \<Rightarrow> Inl err | None \<Rightarrow> Inr ()))"
    for s3
    unfolding migrate_eq Let_def by (simp split: option.split)
  have i: "fst (initialize_column e n s3) =
      (case dataSource e (AlterColumn n) of Some err \<Rightarrow> Inl err | None \<Rightarrow> Inr ())" for s3
    unfolding initialize_column_eq Let_def by (simp split: option.split)
  define st3 where "st3 = snd (introspect e (if isInitialized e then st else snd (initDb e st)))"
  have cb: "check_body e n st =
     (if 0 < detectedDimensions e \<and> detectedDimensions e \<noteq> n then migrate e n st3
      else if detectedDimensions e = 0 then initialize_column e n st3
      else (Inr (), st3))"
    unfolding check_body_reaches[OF assms] st3_def[symmetric] Let_def by (rule refl)
  have w: "fst (checkDatabaseVectorDimensions e n st) =
      (case fst (check_body e n st) of Inl error \<Rightarrow> Inl (check_failed error) | Inr u \<Rightarrow> Inr ())"
    unfolding check_body_snd_fst check_failed_def by simp
  show ?thesis
  proof (cases "0 < detectedDimensions e \<and> detectedDimensions e \<noteq> n")
    case True
    have "fst (check_body e n st) = fst (migrate e n st3)"
      unfolding cb if_P[OF True] by (rule refl)
    then show ?thesis unfolding w if_P[OF True] by (simp add: m split: option.split)
  next
    case False
    show ?thesis
    proof (cases "detectedDimensions e = 0")
      case z: True
      have "fst (check_body e n st) = fst (initialize_column e n st3)"
        unfolding cb if_not_P[OF False] if_P[OF z] by (rule refl)
      then show ?thesis unfolding w if_not_P[OF False] if_P[OF z]
        by (simp add: i split: option.split)
    next
      case z: False
      have "fst (check_body e n st) = Inr ()"
        unfolding cb if_not_P[OF False] if_not_P[OF z] by simp
      then show ?thesis unfolding w if_not_P[OF False] if_not_P[OF z] by simp
    qed
  qed
qed

lemma check_fst_Inr:
  "fst (checkDatabaseVectorDimensions e n st) = Inr () \<longleftrightarrow> fst (check_body e n st) = Inr ()"
  unfolding check_body_snd_fst by (cases "fst (check_body e n st)") simp_all

lemma batch_skipped:
  assumes "tools = [] \<or> \<not> smartRoutingEnabled e"
  shows "save_body e sn tools st = (Inr (), st)"
  using assms by (auto simp: save_body_def)

lemma batch_no_connection:
  assumes "tools \<noteq> []" and "smartRoutingEnabled e"
    and "\<not> isDatabaseConnected e" and "initializeDatabase e = Some err"
  shows "save_body e sn tools st = (Inl err, snd (initDb e st))"
  using assms by (simp add: save_body_def initDb_eq)

lemma grows_new_events:
  assumes "grows_without_save st st'"
  shows "\<not> list_ex is_save (new_events st st')"
  using assms unfolding grows_without_save_def new_events_def by auto

lemma batch_rejected:
  assumes "fst (save_body e sn tools st) = Inl err"
  shows "grows_without_save st (snd (save_body e sn tools st))"
proof (cases "tools = [] \<or> \<not> smartRoutingEnabled e")
  case True
  then show ?thesis using batch_skipped[OF True] by (simp add: grows_refl)
next
  case False
  then have t: "tools \<noteq> []" "smartRoutingEnabled e" by simp_all
  show ?thesis
  proof (cases "isDatabaseConnected e \<or> initializeDatabase e = None")
    case i: False
    then obtain er where "\<not> isDatabaseConnected e" "initializeDatabase e = Some er" by auto
    from batch_no_connection[OF t this] show ?thesis by (simp add: grows_initDb)
  next
    case i: True
    define st0 where "st0 = (if isDatabaseConnected e then st else snd (initDb e st))"
    have g0: "grows_without_save st st0" by (simp add: st0_def grows_refl grows_initDb)
    have g1: "grows_without_save st (snd (checkDatabaseVectorDimensions e n st0))" for n
      using g0 grows_check by (rule grows_trans)
    show ?thesis
    proof (cases "probe e")
      case (Inl er)
      then show ?thesis
        unfolding save_body_runs[OF t i] st0_def[symmetric] Let_def using g0 by simp
    next
      case (Inr w)
      show ?thesis
      proof (cases "fst (checkDatabaseVectorDimensions e (int w) st0)")
        case (Inl er)
        then show ?thesis
          unfolding save_body_runs[OF t i] st0_def[symmetric] Let_def using Inr g1 by simp
      next
        case r: (Inr u)
        then have "fst (save_body e sn tools st) = Inr ()"
          unfolding save_body_runs[OF t i] st0_def[symmetric] Let_def using Inr by simp
        with assms show ?thesis by simp
      qed
    qed
  qed
qed



subsection \<open>The sample environments\<close>

lemma sample_env_fields:
  "smartRoutingEnabled sample_env" "isDatabaseConnected sample_env" "isInitialized sample_env"
  "dataSource sample_env q = None"
  "embed sample_env k t = Inr (ApiArray (if k = 1 then [1, 0] else [0, 1, 0]))"
  by (simp_all add: sample_env_def)


lemma sample_detected: "detectedDimensions sample_env = 1024"
  by (simp add: detectedDimensions_def schemaDimensions_def recordFallback_def sample_env_def)

lemma no_index_env_fields:
  "smartRoutingEnabled no_index_env" "isDatabaseConnected no_index_env" "isInitialized no_index_env"
  "dataSource no_index_env q = (if is_create (Query q) then Some (ErrorObj ''index method unavailable'') else None)"
  "embed no_index_env k t = Inr (ApiArray (if k = 1 then [1, 0] else [0, 1, 0]))"
  by (simp_all add: no_index_env_def sample_env_def)

lemma no_index_detected: "detectedDimensions no_index_env = 1024"
  by (simp add: detectedDimensions_def schemaDimensions_def recordFallback_def no_index_env_def
      sample_env_def)

lemma no_alter_env_fields:
  "smartRoutingEnabled no_alter_env" "isDatabaseConnected no_alter_env" "isInitialized no_alter_env"
  "dataSource no_alter_env q = (case q of AlterColumn n \<Rightarrow> Some (ErrorObj ''cannot alter'') | _ \<Rightarrow> None)"
  "embed no_alter_env k t = Inr (ApiArray (if k = 1 then [1, 0] else [0, 1, 0]))"
  by (simp_all add: no_alter_env_def sample_env_def)

lemma no_alter_detected: "detectedDimensions no_alter_env = 1024"
  by (simp add: detectedDimensions_def schemaDimensions_def recordFallback_def no_alter_env_def
      sample_env_def)

lemma probe_fails_env_fields:
  "smartRoutingEnabled probe_fails_env" "isDatabaseConnected probe_fails_env"
  "embed probe_fails_env k t = Inl (ErrorObj ''settings unavailable'')"
  by (simp_all add: probe_fails_env_def sample_env_def service_embed_def
      generateEmbedding_load_error)

lemma sample_tools: "[tool_a, tool_b] ! 0 = tool_a" "[tool_a, tool_b] ! 1 = tool_b"
  "length [tool_a, tool_b] = 2" "[tool_a, tool_b] \<noteq> []"
  by simp_all

subsection \<open>A probe that fails\<close>

text \<open>
  When the probe gives no width (the generator throws, or gives no array, or an empty
  one), the batch is abandoned: an error is thrown inside \<open>saveToolsAsVectorEmbeddings\<close>,
  no statement is sent to the database and no tool is saved. The outer \<open>catch\<close> of the
  function takes that error, so the call returns normally to its caller.
\<close>

lemma probe_failure_swallowed:
  assumes "tools \<noteq> []" and "smartRoutingEnabled e"
    and "isDatabaseConnected e \<or> initializeDatabase e = None" and "probe_undetermined e"
  shows "\<exists>err. probe e = Inl err
       \<and> save_body e sn tools st
           = (Inl err, if isDatabaseConnected e then st else st\<lparr>db_log := db_log st @ [InitDb]\<rparr>)"
    and "saveToolsAsVectorEmbeddings e sn tools st
           = (Inr (), if isDatabaseConnected e then st else st\<lparr>db_log := db_log st @ [InitDb]\<rparr>)"
proof -
  from assms(4) have "\<not> (\<exists>w. probe e = Inr w)" using probe_Inr by simp
  then obtain er where p: "probe e = Inl er" by (cases "probe e") auto
  have s: "snd (initDb e st) = st\<lparr>db_log := db_log st @ [InitDb]\<rparr>" by (simp add: initDb_eq)
  have b: "save_body e sn tools st
      = (Inl er, if isDatabaseConnected e then st else st\<lparr>db_log := db_log st @ [InitDb]\<rparr>)"
    unfolding save_body_runs[OF assms(1,2,3)] Let_def s using p by simp
  show "\<exists>err. probe e = Inl err
       \<and> save_body e sn tools st
           = (Inl err, if isDatabaseConnected e then st else st\<lparr>db_log := db_log st @ [InitDb]\<rparr>)"
    using p b by blast
  show "saveToolsAsVectorEmbeddings e sn tools st
           = (Inr (), if isDatabaseConnected e then st else st\<lparr>db_log := db_log st @ [InitDb]\<rparr>)"
    unfolding saveToolsAsVectorEmbeddings_def b by simp
qed

lemma probe_fails_undetermined: "probe_undetermined probe_fails_env"
  by (simp add: probe_undetermined_def probe_fails_env_fields)

text \<open>
  Claim C3. The claim (and the documentation of the function, \<open>@throws Error if test
  embedding generation fails or dimension checks fails\<close>) says that a probe without a width
  makes \<open>saveToolsAsVectorEmbeddings\<close> raise an error to its caller. It does not. In the
  batch of the two sample tools, run with the generator of the service while the
  configuration cannot be loaded, the probe call of the generator throws, the probe gives
  no width and the error \<open>Cannot determine embedding dimensions from API\<close> is thrown
  inside the function; the outer \<open>catch\<close> of the function takes it, and the call returns
  normally, with nothing sent to the database and no tool saved.
\<close>

theorem probe_failure_returns:
  "embed probe_fails_env 0 ''test'' = Inl (ErrorObj ''settings unavailable'')
   \<and> probe_undetermined probe_fails_env
   \<and> save_body probe_fails_env ''srv'' [tool_a, tool_b] empty_db
       = (Inl (ErrorObj ''Cannot determine embedding dimensions from API''), empty_db)
   \<and> saveToolsAsVectorEmbeddings probe_fails_env ''srv'' [tool_a, tool_b] empty_db
       = (Inr (), empty_db)"
proof -
  have t: "[tool_a, tool_b] \<noteq> []" "smartRoutingEnabled probe_fails_env"
    and i: "isDatabaseConnected probe_fails_env \<or> initializeDatabase probe_fails_env = None"
    by (simp_all add: probe_fails_env_fields)
  have p: "probe probe_fails_env = Inl (ErrorObj ''Cannot determine embedding dimensions from API'')"
    by (simp add: probe_def probe_fails_env_fields)
  from probe_failure_swallowed(1)[OF t i probe_fails_undetermined, of "''srv''" empty_db]
  have b: "save_body probe_fails_env ''srv'' [tool_a, tool_b] empty_db
       = (Inl (ErrorObj ''Cannot determine embedding dimensions from API''), empty_db)"
    unfolding p by (simp add: probe_fails_env_fields)
  from probe_failure_swallowed(2)[OF t i probe_fails_undetermined, of "''srv''" empty_db]
  have r: "saveToolsAsVectorEmbeddings probe_fails_env ''srv'' [tool_a, tool_b] empty_db
       = (Inr (), empty_db)"
    by (simp add: probe_fails_env_fields)
  have e: "embed probe_fails_env 0 ''test'' = Inl (ErrorObj ''settings unavailable'')"
    by (rule probe_fails_env_fields)
  show ?thesis using e probe_fails_undetermined b r by (intro conjI)
qed

subsection \<open>Errors during the reconciliation\<close>

text \<open>
  Claim C4, as amended. In a reconciliation that reaches the alteration of the column
  (first use, or a mismatch whose clearing was accepted), an error of the alteration
  leaves \<open>checkDatabaseVectorDimensions\<close> as the error
  \<open>Vector dimension check failed: ...\<close>, and an error of \<open>checkDatabaseVectorDimensions\<close>
  aborts the batch that called it, whether the database was connected or was initialised by
  the batch itself: the error is thrown on inside \<open>saveToolsAsVectorEmbeddings\<close> and no tool
  is saved. When the alteration is accepted the reconciliation returns normally, whatever
  the statements that create the index do: a failure of the index rebuild is not
  propagated.
\<close>

theorem alter_error_propagates:
  "(0 < n \<and> (isInitialized e \<or> initializeDatabase e = None)
      \<and> dataSource e SelectAttTypMod = None
      \<and> (detectedDimensions e = 0
           \<or> (0 < detectedDimensions e \<and> detectedDimensions e \<noteq> n
               \<and> dataSource e (DeleteMismatched n) = None))
    \<longrightarrow> (\<forall>err. dataSource e (AlterColumn n) = Some err \<longrightarrow>
            fst (checkDatabaseVectorDimensions e n st) = Inl (check_failed err))
        \<and> (dataSource e (AlterColumn n) = None \<longrightarrow>
            fst (checkDatabaseVectorDimensions e n st) = Inr ()))
   \<and> (tools \<noteq> [] \<and> smartRoutingEnabled e
        \<and> (isDatabaseConnected e \<or> initializeDatabase e = None) \<and> probe e = Inr w
        \<and> fst (checkDatabaseVectorDimensions e (int w)
                 (if isDatabaseConnected e then st else snd (initDb e st))) = Inl error
    \<longrightarrow> fst (save_body e sn tools st) = Inl error
        \<and> \<not> list_ex is_save (new_events st (snd (saveToolsAsVectorEmbeddings e sn tools st))))"
proof (intro conjI impI)
  assume a: "0 < n \<and> (isInitialized e \<or> initializeDatabase e = None)
      \<and> dataSource e SelectAttTypMod = None
      \<and> (detectedDimensions e = 0
           \<or> (0 < detectedDimensions e \<and> detectedDimensions e \<noteq> n
               \<and> dataSource e (DeleteMismatched n) = None))"
  then have n: "0 < n" and i: "isInitialized e \<or> initializeDatabase e = None"
    and q: "dataSource e SelectAttTypMod = None"
    and d: "detectedDimensions e = 0
           \<or> (0 < detectedDimensions e \<and> detectedDimensions e \<noteq> n
               \<and> dataSource e (DeleteMismatched n) = None)"
    by simp_all
  note c = check_fst[OF n i q, of st]
  show "\<forall>err. dataSource e (AlterColumn n) = Some err \<longrightarrow>
            fst (checkDatabaseVectorDimensions e n st) = Inl (check_failed err)"
    using d unfolding c by auto
  show "fst (checkDatabaseVectorDimensions e n st) = Inr ()" if "dataSource e (AlterColumn n) = None"
    using d that unfolding c by auto
next
  assume a: "tools \<noteq> [] \<and> smartRoutingEnabled e
        \<and> (isDatabaseConnected e \<or> initializeDatabase e = None) \<and> probe e = Inr w
        \<and> fst (checkDatabaseVectorDimensions e (int w)
                 (if isDatabaseConnected e then st else snd (initDb e st))) = Inl error"
  then have t: "tools \<noteq> []" "smartRoutingEnabled e"
    and i: "isDatabaseConnected e \<or> initializeDatabase e = None"
    and p: "probe e = Inr w"
    and f: "fst (checkDatabaseVectorDimensions e (int w)
                 (if isDatabaseConnected e then st else snd (initDb e st))) = Inl error"
    by simp_all
  show b: "fst (save_body e sn tools st) = Inl error"
    unfolding save_body_runs[OF t i] Let_def using p f by simp
  from batch_rejected[OF b] have "grows_without_save st (snd (save_body e sn tools st))" .
  then show "\<not> list_ex is_save (new_events st (snd (saveToolsAsVectorEmbeddings e sn tools st)))"
    unfolding save_snd by (rule grows_new_events)
qed

lemma no_alter_check:
  "fst (checkDatabaseVectorDimensions no_alter_env 3 st) = Inl (check_failed (ErrorObj ''cannot alter''))"
proof -
  have "fst (checkDatabaseVectorDimensions no_alter_env 3 st) =
     (if 0 < detectedDimensions no_alter_env \<and> detectedDimensions no_alter_env \<noteq> 3 then
        (case dataSource no_alter_env (DeleteMismatched 3) of
           Some err \<Rightarrow> Inl (check_failed err)
         | None \<Rightarrow>
             (case dataSource no_alter_env (AlterColumn 3) of
                Some err \<Rightarrow> Inl (check_failed err)
              | None \<Rightarrow> Inr ()))
      else if detectedDimensions no_alter_env = 0 then
        (case dataSource no_alter_env (AlterColumn 3) of
           Some err \<Rightarrow> Inl (check_failed err)
         | None \<Rightarrow> Inr ())
      else Inr ())"
    by (rule check_fst) (simp_all add: no_alter_env_fields)
  then show ?thesis by (simp add: no_alter_detected no_alter_env_fields)
qed

lemma no_alter_probe: "probe no_alter_env = Inr 3"
  by (simp add: probe_def no_alter_env_fields)

lemma lazy_no_alter_env_fields:
  "smartRoutingEnabled lazy_no_alter_env" "\<not> isDatabaseConnected lazy_no_alter_env"
  "initializeDatabase lazy_no_alter_env = None" "isInitialized lazy_no_alter_env"
  "dataSource lazy_no_alter_env q = (case q of AlterColumn n \<Rightarrow> Some (ErrorObj ''cannot alter'') | _ \<Rightarrow> None)"
  "embed lazy_no_alter_env k t = Inr (ApiArray (if k = 1 then [1, 0] else [0, 1, 0]))"
  by (simp_all add: lazy_no_alter_env_def no_alter_env_def sample_env_def)

lemma lazy_no_alter_detected: "detectedDimensions lazy_no_alter_env = 1024"
  by (simp add: detectedDimensions_def schemaDimensions_def recordFallback_def
      lazy_no_alter_env_def no_alter_env_def sample_env_def)

lemma lazy_no_alter_check:
  "fst (checkDatabaseVectorDimensions lazy_no_alter_env 3 st)
     = Inl (check_failed (ErrorObj ''cannot alter''))"
proof -
  have "fst (checkDatabaseVectorDimensions lazy_no_alter_env 3 st) =
     (if 0 < detectedDimensions lazy_no_alter_env \<and> detectedDimensions lazy_no_alter_env \<noteq> 3 then
        (case dataSource lazy_no_alter_env (DeleteMismatched 3) of
           Some err \<Rightarrow> Inl (check_failed err)
         | None \<Rightarrow>
             (case dataSource lazy_no_alter_env (AlterColumn 3) of
                Some err \<Rightarrow> Inl (check_failed err)
              | None \<Rightarrow> Inr ()))
      else if detectedDimensions lazy_no_alter_env = 0 then
        (case dataSource lazy_no_alter_env (AlterColumn 3) of
           Some err \<Rightarrow> Inl (check_failed err)
         | None \<Rightarrow> Inr ())
      else Inr ())"
    by (rule check_fst) (simp_all add: lazy_no_alter_env_fields)
  then show ?thesis by (simp add: lazy_no_alter_detected lazy_no_alter_env_fields)
qed

lemma lazy_no_alter_probe: "probe lazy_no_alter_env = Inr 3"
  by (simp add: probe_def lazy_no_alter_env_fields)

theorem alter_error_propagates_witness:
  "fst (checkDatabaseVectorDimensions no_alter_env 3 empty_db)
     = Inl (check_failed (ErrorObj ''cannot alter''))
   \<and> fst (save_body no_alter_env ''srv'' [tool_a, tool_b] empty_db)
     = Inl (check_failed (ErrorObj ''cannot alter''))
   \<and> \<not> list_ex is_save
        (new_events empty_db (snd (saveToolsAsVectorEmbeddings no_alter_env ''srv'' [tool_a, tool_b] empty_db)))
   \<and> \<not> isDatabaseConnected lazy_no_alter_env
   \<and> fst (save_body lazy_no_alter_env ''srv'' [tool_a, tool_b] empty_db)
     = Inl (check_failed (ErrorObj ''cannot alter''))
   \<and> \<not> list_ex is_save
        (new_events empty_db
           (snd (saveToolsAsVectorEmbeddings lazy_no_alter_env ''srv'' [tool_a, tool_b] empty_db)))
   \<and> fst (checkDatabaseVectorDimensions sample_env 3 empty_db) = Inr ()"
proof -
  note t1 = alter_error_propagates[of 3 no_alter_env empty_db "[tool_a, tool_b]" 3
      "check_failed (ErrorObj ''cannot alter'')" "''srv''"]
  have h1: "0 < (3::int) \<and> (isInitialized no_alter_env \<or> initializeDatabase no_alter_env = None)
      \<and> dataSource no_alter_env SelectAttTypMod = None
      \<and> (detectedDimensions no_alter_env = 0
           \<or> (0 < detectedDimensions no_alter_env \<and> detectedDimensions no_alter_env \<noteq> 3
               \<and> dataSource no_alter_env (DeleteMismatched 3) = None))"
    by (simp add: no_alter_env_fields no_alter_detected)
  have a1: "dataSource no_alter_env (AlterColumn 3) = Some (ErrorObj ''cannot alter'')"
    by (simp add: no_alter_env_fields)
  from t1[THEN conjunct1, THEN mp, OF h1, THEN conjunct1, THEN spec, THEN mp, OF a1]
  have 1: "fst (checkDatabaseVectorDimensions no_alter_env 3 empty_db)
     = Inl (check_failed (ErrorObj ''cannot alter''))" .
  have h2: "[tool_a, tool_b] \<noteq> [] \<and> smartRoutingEnabled no_alter_env
     \<and> (isDatabaseConnected no_alter_env \<or> initializeDatabase no_alter_env = None)
     \<and> probe no_alter_env = Inr 3
     \<and> fst (checkDatabaseVectorDimensions no_alter_env (int 3)
              (if isDatabaseConnected no_alter_env then empty_db
               else snd (initDb no_alter_env empty_db)))
         = Inl (check_failed (ErrorObj ''cannot alter''))"
    using no_alter_check by (simp add: no_alter_env_fields no_alter_probe)
  note 2 = t1[THEN conjunct2, THEN mp, OF h2]
  note t4 = alter_error_propagates[of 3 lazy_no_alter_env empty_db "[tool_a, tool_b]" 3
      "check_failed (ErrorObj ''cannot alter'')" "''srv''"]
  have h4: "[tool_a, tool_b] \<noteq> [] \<and> smartRoutingEnabled lazy_no_alter_env
     \<and> (isDatabaseConnected lazy_no_alter_env \<or> initializeDatabase lazy_no_alter_env = None)
     \<and> probe lazy_no_alter_env = Inr 3
     \<and> fst (checkDatabaseVectorDimensions lazy_no_alter_env (int 3)
              (if isDatabaseConnected lazy_no_alter_env then empty_db
               else snd (initDb lazy_no_alter_env empty_db)))
         = Inl (check_failed (ErrorObj ''cannot alter''))"
    using lazy_no_alter_check by (simp add: lazy_no_alter_env_fields lazy_no_alter_probe)
  note 4 = t4[THEN conjunct2, THEN mp, OF h4]
  have c4: "\<not> isDatabaseConnected lazy_no_alter_env" by (rule lazy_no_alter_env_fields)
  note t3 = alter_error_propagates[of 3 sample_env empty_db "[tool_a, tool_b]" 3
      "check_failed (ErrorObj ''cannot alter'')" "''srv''"]
  have h3: "0 < (3::int) \<and> (isInitialized sample_env \<or> initializeDatabase sample_env = None)
      \<and> dataSource sample_env SelectAttTypMod = None
      \<and> (detectedDimensions sample_env = 0
           \<or> (0 < detectedDimensions sample_env \<and> detectedDimensions sample_env \<noteq> 3
               \<and> dataSource sample_env (DeleteMismatched 3) = None))"
    by (simp add: sample_env_fields sample_detected)
  have a3: "dataSource sample_env (AlterColumn 3) = None" by (simp add: sample_env_fields)
  from t3[THEN conjunct1, THEN mp, OF h3, THEN conjunct2, THEN mp, OF a3]
  have 3: "fst (checkDatabaseVectorDimensions sample_env 3 empty_db) = Inr ()" .
  show ?thesis using 1 2 c4 4 3 by simp
qed

text \<open>
  The claim as worded says that an error of the index rebuild propagates as well. With a
  database that rejects every creation of an index, \<open>createVectorIndex\<close> reports failure
  and the reconciliation of a mismatch returns normally.
\<close>

theorem index_failure_absorbed_counterexample:
  "\<not> success (fst (createVectorIndex (dataSource no_index_env) 3
                      ''vector_embeddings'' ''embedding'' empty_db))
   \<and> indexType (fst (createVectorIndex (dataSource no_index_env) 3
                      ''vector_embeddings'' ''embedding'' empty_db)) = None
   \<and> detectedDimensions no_index_env = 1024
   \<and> fst (checkDatabaseVectorDimensions no_index_env 3 empty_db) = Inr ()"
proof -
  have c: "dataSource no_index_env (CreateHnsw n t c) \<noteq> None"
    "dataSource no_index_env (CreateIvfflat n t c) \<noteq> None" for n t c
    by (simp_all add: no_index_env_fields)
  have le: "(3::int) \<le> 2000" by simp
  from index_le_2000[OF le, of "dataSource no_index_env" "''vector_embeddings''" "''embedding''" empty_db]
  have 1: "\<not> success (fst (createVectorIndex (dataSource no_index_env) 3
                      ''vector_embeddings'' ''embedding'' empty_db))
    \<and> indexType (fst (createVectorIndex (dataSource no_index_env) 3
                      ''vector_embeddings'' ''embedding'' empty_db)) = None"
    using c by blast
  have "fst (checkDatabaseVectorDimensions no_index_env 3 empty_db) =
     (if 0 < detectedDimensions no_index_env \<and> detectedDimensions no_index_env \<noteq> 3 then
        (case dataSource no_index_env (DeleteMismatched 3) of
           Some err \<Rightarrow> Inl (check_failed err)
         | None \<Rightarrow>
             (case dataSource no_index_env (AlterColumn 3) of
                Some err \<Rightarrow> Inl (check_failed err)
              | None \<Rightarrow> Inr ()))
      else if detectedDimensions no_index_env = 0 then
        (case dataSource no_index_env (AlterColumn 3) of
           Some err \<Rightarrow> Inl (check_failed err)
         | None \<Rightarrow> Inr ())
      else Inr ())"
    by (rule check_fst) (simp_all add: no_index_env_fields)
  then have 2: "fst (checkDatabaseVectorDimensions no_index_env 3 empty_db) = Inr ()"
    by (simp add: no_index_detected no_index_env_fields)
  show ?thesis using 1 2 no_index_detected by simp
qed


subsection \<open>The order of a batch with a mismatch\<close>











subsection \<open>A tool with a bad embedding\<close>



end
